theory Spec2Isabelle
  imports Complex_Main "HOL-Library.Word"
begin

section \<open>The credential encoder (encode\_key.py)\<close>

text \<open>
  The script reads the service-account file as raw bytes, encodes them with
  \<^verbatim>\<open>base64.b64encode\<close> and prints the text between two marker lines.
  Bytes are 8-bit words. The standard library's encoder is the RFC 4648 alphabet
  with \<open>=\<close> padding: three bytes become four sextets, each sextet one character
  of the alphabet.
\<close>

type_synonym byte = "8 word"

definition b64alphabet :: string where
  "b64alphabet = ''ABCDEFGHIJKLMNOPQRSTUVWXYZabcdefghijklmnopqrstuvwxyz0123456789+/''"

definition b64char :: "nat \<Rightarrow> char" where
  "b64char n = b64alphabet ! n"

fun index_of :: "'a \<Rightarrow> 'a list \<Rightarrow> nat option" where
  "index_of c [] = None"
| "index_of c (x # xs) = (if x = c then Some 0 else map_option Suc (index_of c xs))"

definition b64val :: "char \<Rightarrow> nat option" where
  "b64val c = index_of c b64alphabet"

fun b64encode :: "byte list \<Rightarrow> string" where
  "b64encode [] = []"
| "b64encode [a] =
     [b64char (unat a div 4), b64char (unat a mod 4 * 16), CHR ''='', CHR ''='']"
| "b64encode [a, b] =
     [b64char (unat a div 4), b64char (unat a mod 4 * 16 + unat b div 16),
      b64char (unat b mod 16 * 4), CHR ''='']"
| "b64encode (a # b # c # rest) =
     b64char (unat a div 4) # b64char (unat a mod 4 * 16 + unat b div 16) #
     b64char (unat b mod 16 * 4 + unat c div 64) # b64char (unat c mod 64) #
     b64encode rest"

text \<open>
  Decoding, as the operator's deployment platform does with the pasted text: groups of
  four characters, padding allowed in the last group only; \<open>None\<close> for text that
  is not base64.
\<close>

fun b64decode :: "string \<Rightarrow> byte list option" where
  "b64decode [] = Some []"
| "b64decode (c1 # c2 # c3 # c4 # rest) =
     (case (b64val c1, b64val c2) of
        (Some s1, Some s2) \<Rightarrow>
          if c3 = CHR ''='' \<and> c4 = CHR ''='' \<and> rest = []
          then Some [of_nat (s1 * 4 + s2 div 16)]
          else (case b64val c3 of
             None \<Rightarrow> None
           | Some s3 \<Rightarrow>
               if c4 = CHR ''='' \<and> rest = []
               then Some [of_nat (s1 * 4 + s2 div 16), of_nat (s2 mod 16 * 16 + s3 div 4)]
               else (case b64val c4 of
                  None \<Rightarrow> None
                | Some s4 \<Rightarrow>
                    (case b64decode rest of
                       None \<Rightarrow> None
                     | Some bs \<Rightarrow>
                         Some (of_nat (s1 * 4 + s2 div 16) #
                               of_nat (s2 mod 16 * 16 + s3 div 4) #
                               of_nat (s3 mod 4 * 64 + s4) # bs))))
      | _ \<Rightarrow> None)"
| "b64decode _ = None"

text \<open>
  What the script finds at \<open>SERVICE_ACCOUNT_FILE\<close>: nothing
  (\<^verbatim>\<open>os.path.exists\<close> is false), a file whose \<^verbatim>\<open>open\<close> or
  \<^verbatim>\<open>read\<close> raises (with the exception's text), or a file with its bytes.
\<close>

datatype cred_file = NoFile | Unreadable string | FileBytes "byte list"

definition SERVICE_ACCOUNT_FILE :: string where
  "SERVICE_ACCOUNT_FILE = ''tu-oportunidad-es-hoy-firebase-adminsdk-fbsvc-781e9f9dc1.json''"

definition not_found_line :: string where
  "not_found_line =
     ''Error: Archivo '' @ [CHR 0x27] @ SERVICE_ACCOUNT_FILE @ [CHR 0x27] @
     '' no encontrado en el directorio actual.''"

definition begin_marker :: string where
  "begin_marker = ''--- COMIENZO DE CLAVE BASE64 ---''"

definition end_marker :: string where
  "end_marker = ''--- FIN DE CLAVE BASE64 ---''"

text \<open>The last \<^verbatim>\<open>print\<close>: a newline, then the hint (its accented letter in UTF-8).\<close>

definition copy_hint :: string where
  "copy_hint =
     [CHR 0x0A] @ ''Copia el texto entre '' @ [CHR 0x27] @ ''--- COMIENZO ---'' @ [CHR 0x27] @
     '' y '' @ [CHR 0x27] @ ''--- FIN ---'' @ [CHR 0x27] @ '' y p'' @ [CHR 0xC3, CHR 0xA9] @
     ''galo en Render.''"

text \<open>
  The script's output: the texts of its \<^verbatim>\<open>print\<close> calls, in order. The file is
  read and encoded before the first marker is printed, so a failing read prints the
  error text only.
\<close>

definition encode_key :: "cred_file \<Rightarrow> string list" where
  "encode_key f =
     (case f of
        NoFile \<Rightarrow> [not_found_line]
      | Unreadable msg \<Rightarrow> [''Error al codificar el archivo: '' @ msg]
      | FileBytes bs \<Rightarrow> [begin_marker, b64encode bs, end_marker, copy_hint])"

text \<open>What the operator copies: the printed texts after the start marker, up to the end marker.\<close>

definition between_markers :: "string list \<Rightarrow> string list" where
  "between_markers out =
     takeWhile (\<lambda>l. l \<noteq> end_marker) (tl (dropWhile (\<lambda>l. l \<noteq> begin_marker) out))"


section \<open>The fixture migrator (migrate\_to\_firestore.py)\<close>

subsection \<open>Parsed JSON and the Python operations the script applies to it\<close>

text \<open>
  \<^verbatim>\<open>json.load\<close> returns \<^verbatim>\<open>None\<close>, a bool, an int, a float, a str, a list
  or a dict (keys in file order). The script never inspects a float beyond its truth
  value, so a float is a rational or one of the three non-finite literals the parser
  accepts.
\<close>

datatype pyfloat = Finite rat | PosInf | NegInf | NaN

datatype json =
    JNull
  | JBool bool
  | JInt int
  | JFloat pyfloat
  | JStr string
  | JArr "json list"
  | JObj "(string \<times> json) list"

text \<open>
  Exceptions: the two that Python itself raises on the parsed data, and any other
  \<^verbatim>\<open>Exception\<close> (of the client library, the network or the file system) with its
  text.
\<close>

datatype exn = KeyError string | TypeError | OtherError string

text \<open>\<^verbatim>\<open>if data:\<close>\<close>

fun truthy :: "json \<Rightarrow> bool" where
  "truthy JNull = False"
| "truthy (JBool b) = b"
| "truthy (JInt i) = (i \<noteq> 0)"
| "truthy (JFloat f) = (f \<noteq> Finite 0)"
| "truthy (JStr s) = (s \<noteq> [])"
| "truthy (JArr xs) = (xs \<noteq> [])"
| "truthy (JObj kvs) = (kvs \<noteq> [])"

text \<open>\<^verbatim>\<open>len(data)\<close>: a \<^verbatim>\<open>TypeError\<close> for a value that has no length.\<close>

fun py_len :: "json \<Rightarrow> exn + nat" where
  "py_len (JStr s) = Inr (length s)"
| "py_len (JArr xs) = Inr (length xs)"
| "py_len (JObj kvs) = Inr (length kvs)"
| "py_len _ = Inl TypeError"

text \<open>
  \<^verbatim>\<open>data[i:j]\<close> for \<open>0 \<le> i \<le> j\<close>: the slice is clamped to the sequence;
  a dict cannot be sliced, the other values cannot be subscripted.
\<close>

fun py_slice :: "json \<Rightarrow> nat \<Rightarrow> nat \<Rightarrow> exn + json" where
  "py_slice (JArr xs) i j = Inr (JArr (drop i (take j xs)))"
| "py_slice (JStr s) i j = Inr (JStr (drop i (take j s)))"
| "py_slice _ i j = Inl TypeError"

text \<open>
  \<^verbatim>\<open>for x in data\<close>: the elements of a list, the characters of a str, the keys of a
  dict; a \<^verbatim>\<open>TypeError\<close> for a value that is not iterable.
\<close>

fun py_iter :: "json \<Rightarrow> exn + json list" where
  "py_iter (JArr xs) = Inr xs"
| "py_iter (JStr s) = Inr (map (\<lambda>c. JStr [c]) s)"
| "py_iter (JObj kvs) = Inr (map (\<lambda>kv. JStr (fst kv)) kvs)"
| "py_iter _ = Inl TypeError"

text \<open>
  \<^verbatim>\<open>item[key]\<close> with a str key: the value of a dict, a \<^verbatim>\<open>KeyError\<close> when the
  dict has no such key, a \<^verbatim>\<open>TypeError\<close> for every value that is not a dict.
\<close>

fun py_getitem :: "json \<Rightarrow> string \<Rightarrow> exn + json" where
  "py_getitem (JObj kvs) k =
     (case map_of kvs k of None \<Rightarrow> Inl (KeyError k) | Some v \<Rightarrow> Inr v)"
| "py_getitem _ k = Inl TypeError"

subsection \<open>The world the script runs in\<close>

text \<open>
  A fixture path holds no file, a file that is not JSON (a file of zero bytes is one:
  \<^verbatim>\<open>json.load\<close> raises \<^verbatim>\<open>JSONDecodeError\<close> on it), a file that cannot be opened
  or read, or a file with its parsed content. The first two carry the exception's text.
\<close>

datatype fixture_file = Absent | Malformed string | Unloadable string | Parsed json

datatype cred_source = EnvBlob string | LocalFile string

text \<open>
  \<^verbatim>\<open>get_venezuela_time\<close> and \<^verbatim>\<open>format_timestamp\<close> work on the fields of a
  \<^verbatim>\<open>datetime\<close>.
\<close>

record datetime =
  year :: nat
  month :: nat
  day :: nat
  hour :: nat
  minute :: nat
  second :: nat

text \<open>
  A document of the destination is addressed by its collection and its identity: the
  one the script names, or one the destination assigns (a fresh one at each request
  for one).
\<close>

datatype doc_id = Named json | Auto nat

type_synonym doc_ref = "string \<times> doc_id"

type_synonym doc_write = "doc_ref \<times> json"

text \<open>
  Everything that is not the script: the environment variable, the file system, the
  clock, the content of the destination before the run, and the behaviour of the
  client library, which is not part of the repository. The library's calls are
  parameters of the model:
  \<^item> \<open>certificate\<close>, \<open>initialize_app\<close>, \<open>firestore_client\<close>: the exception, if any,
    of \<^verbatim>\<open>credentials.Certificate\<close> (with the parsing of the blob),
    \<^verbatim>\<open>firebase_admin.initialize_app\<close> and \<^verbatim>\<open>firestore.client\<close>;
  \<^item> \<open>document_raises\<close>: the exception, if any, of
    \<^verbatim>\<open>db.collection(c).document(v)\<close> for an identity \<open>v\<close> taken from the data;
  \<^item> \<open>batch_set_raises\<close>: the exception, if any, of \<^verbatim>\<open>batch.set(ref, data)\<close>,
    which checks and converts the data when it is staged;
  \<^item> \<open>network\<close>: the exception, if any, of the k-th request the run sends to the
    destination (a \<^verbatim>\<open>set\<close>, a \<^verbatim>\<open>commit\<close> or an \<^verbatim>\<open>add\<close>).
  Theorems hold for every choice of these parameters.
\<close>

record world =
  environ_key :: "string option"
  certificate :: "cred_source \<Rightarrow> exn option"
  initialize_app :: "exn option"
  firestore_client :: "exn option"
  files :: "string \<Rightarrow> fixture_file"
  now :: "int \<Rightarrow> datetime"
  database :: "doc_ref \<Rightarrow> json option"
  document_raises :: "json \<Rightarrow> exn option"
  batch_set_raises :: "json \<Rightarrow> exn option"
  network :: "nat \<Rightarrow> exn option"

text \<open>
  The texts the script prints, one constructor for each \<^verbatim>\<open>print\<close> of the source,
  with the values its f-string interpolates (the line of the source in the comment).
\<close>

datatype line =
    InitOk  \<comment> \<open>27\<close>
  | InitError exn  \<comment> \<open>29\<close>
  | InitHintFile  \<comment> \<open>30\<close>
  | InitHintEnv  \<comment> \<open>31\<close>
  | NotFoundWarning string  \<comment> \<open>50\<close>
  | JsonDecodeError string string  \<comment> \<open>56\<close>
  | LoadError string string  \<comment> \<open>59\<close>
  | Starting  \<comment> \<open>74\<close>
  | ConfigMigrated  \<comment> \<open>82\<close>
  | ConfigError exn  \<comment> \<open>84\<close>
  | BatchCommitted string nat  \<comment> \<open>98, 155\<close>
  | BatchError string exn  \<comment> \<open>100, 157\<close>
  | Migrated string nat  \<comment> \<open>105, 128, 158, 168, 179\<close>
  | HorariosMigrated nat  \<comment> \<open>116\<close>
  | HorariosError exn  \<comment> \<open>118\<close>
  | RecordError string json exn  \<comment> \<open>127, 167, 178\<close>
  | PremiosMigrated  \<comment> \<open>136\<close>
  | PremiosError exn  \<comment> \<open>138\<close>
  | Completed  \<comment> \<open>182\<close>
  | ReminderBackend  \<comment> \<open>183\<close>
  | ReminderEnv  \<comment> \<open>184\<close>

text \<open>
  What an observer of the run sees, in order: the printed texts, the credential source
  handed to the library, each call of \<^verbatim>\<open>load_json\<close>, and each request sent to the
  destination with its outcome.
\<close>

datatype event =
    Print line
  | Credential cred_source
  | Load string
  | DocSet doc_write "exn option"
  | Commit "doc_write list" "exn option"
  | Add string json "exn option"

record state =
  trace :: "event list"
  store :: "doc_ref \<Rightarrow> json option"
  next_auto :: nat
  requests :: nat

definition emit :: "event \<Rightarrow> state \<Rightarrow> state" where
  "emit e s = s\<lparr>trace := trace s @ [e]\<rparr>"

subsection \<open>The client library's writes\<close>

text \<open>
  The destination's contract is "create or overwrite the document at collection and
  identity" and "commit a group of such writes as one atomic unit": a request that
  succeeds stores its documents (a batch in the order staged), a request that raises
  stores nothing.
\<close>

definition apply_writes :: "doc_write list \<Rightarrow> (doc_ref \<Rightarrow> json option) \<Rightarrow> (doc_ref \<Rightarrow> json option)" where
  "apply_writes ws m = fold (\<lambda>wr m'. m'(fst wr \<mapsto> snd wr)) ws m"

text \<open>\<^verbatim>\<open>doc_ref.set(data)\<close>\<close>

definition doc_set :: "world \<Rightarrow> doc_write \<Rightarrow> state \<Rightarrow> exn option \<times> state" where
  "doc_set w wr s =
     (let r = network w (requests s) in
      (r, s\<lparr>trace := trace s @ [DocSet wr r],
            store := (if r = None then apply_writes [wr] (store s) else store s),
            requests := Suc (requests s)\<rparr>))"

text \<open>\<^verbatim>\<open>batch.commit()\<close>\<close>

definition commit :: "world \<Rightarrow> doc_write list \<Rightarrow> state \<Rightarrow> exn option \<times> state" where
  "commit w batch s =
     (let r = network w (requests s) in
      (r, s\<lparr>trace := trace s @ [Commit batch r],
            store := (if r = None then apply_writes batch (store s) else store s),
            requests := Suc (requests s)\<rparr>))"

text \<open>\<^verbatim>\<open>db.collection(c).add(data)\<close>: the destination assigns the identity.\<close>

definition add :: "world \<Rightarrow> string \<Rightarrow> json \<Rightarrow> state \<Rightarrow> exn option \<times> state" where
  "add w c data s =
     (let r = network w (requests s) in
      (r, s\<lparr>trace := trace s @ [Add c data r],
            store := (if r = None then apply_writes [((c, Auto (next_auto s)), data)] (store s)
                      else store s),
            next_auto := (if r = None then Suc (next_auto s) else next_auto s),
            requests := Suc (requests s)\<rparr>))"

text \<open>
  \<^verbatim>\<open>db.collection(c).document(v)\<close>: without an identity (\<^verbatim>\<open>None\<close>, the
  default) the reference is to a fresh document; otherwise the library checks the
  identity and the reference is to the document it names.
\<close>

definition document :: "world \<Rightarrow> string \<Rightarrow> json \<Rightarrow> state \<Rightarrow> (exn + doc_ref) \<times> state" where
  "document w c v s =
     (if v = JNull then (Inr (c, Auto (next_auto s)), s\<lparr>next_auto := Suc (next_auto s)\<rparr>)
      else (case document_raises w v of
              Some e \<Rightarrow> (Inl e, s)
            | None \<Rightarrow> (Inr (c, Named v), s)))"

subsection \<open>Helpers of the script\<close>

definition CONFIGURACION_FILE :: string where "CONFIGURACION_FILE = ''configuracion.json''"
definition NUMEROS_FILE :: string where "NUMEROS_FILE = ''numeros.json''"
definition HORARIOS_ZULIA_FILE :: string where "HORARIOS_ZULIA_FILE = ''horarios_zulia.json''"
definition GANADORES_FILE :: string where "GANADORES_FILE = ''ganadores.json''"
definition PREMIOS_FILE :: string where "PREMIOS_FILE = ''premios.json''"
definition VENTAS_FILE :: string where "VENTAS_FILE = ''ventas.json''"
definition RESULTADOS_ZULIA_FILE :: string where "RESULTADOS_ZULIA_FILE = ''resultados_zulia.json''"
definition COMPROBANTES_FILE :: string where "COMPROBANTES_FILE = ''comprobantes.json''"

text \<open>
  \<^verbatim>\<open>load_json\<close> returns the parsed content, or \<^verbatim>\<open>None\<close> after printing why
  there is none; it raises nothing.
\<close>

definition load_json :: "world \<Rightarrow> string \<Rightarrow> state \<Rightarrow> json \<times> state" where
  "load_json w filepath s =
     (let s1 = emit (Load filepath) s in
      case files w filepath of
        Absent \<Rightarrow> (JNull, emit (Print (NotFoundWarning filepath)) s1)
      | Malformed msg \<Rightarrow> (JNull, emit (Print (JsonDecodeError filepath msg)) s1)
      | Unloadable msg \<Rightarrow> (JNull, emit (Print (LoadError filepath msg)) s1)
      | Parsed v \<Rightarrow> (v, s1))"

text \<open>\<^verbatim>\<open>datetime.now\<close> at UTC-4.\<close>

definition get_venezuela_time :: "world \<Rightarrow> datetime" where
  "get_venezuela_time w = now w (- 4)"

fun zero_padded :: "nat \<Rightarrow> nat \<Rightarrow> string" where
  "zero_padded 0 n = []"
| "zero_padded (Suc k) n = zero_padded k (n div 10) @ [char_of (48 + n mod 10)]"

text \<open>A number in decimal, with no padding.\<close>

fun decimal :: "nat \<Rightarrow> string" where
  "decimal n =
     (if n < 10 then [char_of (48 + n)] else decimal (n div 10) @ [char_of (48 + n mod 10)])"

declare decimal.simps [simp del]

text \<open>
  \<^verbatim>\<open>strftime('%Y-%m-%d %H:%M:%S')\<close>: the C library writes the year as it is (a
  year below 1000 is not padded) and the other fields with two digits.
\<close>

definition format_timestamp :: "datetime \<Rightarrow> string" where
  "format_timestamp dt =
     decimal (year dt) @ ''-'' @ zero_padded 2 (month dt) @ ''-'' @ zero_padded 2 (day dt)
     @ '' '' @ zero_padded 2 (hour dt) @ '':'' @ zero_padded 2 (minute dt) @ '':'' @
     zero_padded 2 (second dt)"

subsection \<open>The eight steps of the migration\<close>

text \<open>
  A step runs from a state to a state and either completes (\<open>None\<close>) or raises an
  exception that nothing in \<^verbatim>\<open>migrate_data\<close> catches.
\<close>

type_synonym step = "state \<Rightarrow> exn option \<times> state"

text \<open>1. Configuration (lines 77 to 84).\<close>

definition migrate_configuracion :: "world \<Rightarrow> step" where
  "migrate_configuracion w s =
     (case load_json w CONFIGURACION_FILE s of
        (configuracion_data, s1) \<Rightarrow>
          if truthy configuracion_data then
            (case doc_set w ((''configuracion'', Named (JStr ''general'')), configuracion_data) s1 of
               (None, s2) \<Rightarrow> (None, emit (Print ConfigMigrated) s2)
             | (Some e, s2) \<Rightarrow> (None, emit (Print (ConfigError e)) s2))
          else (None, s1))"

text \<open>
  2. and 6. The batched fixtures. Staging one record (lines 94 and 95 for the
  numbers, line 152 for the sales) is outside every \<^verbatim>\<open>try\<close>.
\<close>

type_synonym stage = "world \<Rightarrow> json \<Rightarrow> state \<Rightarrow> (exn + doc_write) \<times> state"

definition stage_numero :: stage where
  "stage_numero w numero_item s =
     (case py_getitem numero_item ''numero'' of
        Inl e \<Rightarrow> (Inl e, s)
      | Inr v \<Rightarrow>
          (case document w ''numeros'' v s of
             (Inl e, s1) \<Rightarrow> (Inl e, s1)
           | (Inr doc, s1) \<Rightarrow>
               (case batch_set_raises w numero_item of
                  Some e \<Rightarrow> (Inl e, s1)
                | None \<Rightarrow> (Inr (doc, numero_item), s1))))"

definition stage_venta :: stage where
  "stage_venta w venta s =
     (case document w ''ventas'' JNull s of
        (Inl e, s1) \<Rightarrow> (Inl e, s1)
      | (Inr doc, s1) \<Rightarrow>
          (case batch_set_raises w venta of
             Some e \<Rightarrow> (Inl e, s1)
           | None \<Rightarrow> (Inr (doc, venta), s1)))"

text \<open>The inner \<^verbatim>\<open>for\<close> over the segment: the batch grows by one write per record.\<close>

fun stage_segment :: "stage \<Rightarrow> world \<Rightarrow> json list \<Rightarrow> doc_write list \<Rightarrow> state \<Rightarrow> (exn + doc_write list) \<times> state" where
  "stage_segment stg w [] batch s = (Inr batch, s)"
| "stage_segment stg w (item # items) batch s =
     (case stg w item s of
        (Inl e, s1) \<Rightarrow> (Inl e, s1)
      | (Inr wr, s1) \<Rightarrow> stage_segment stg w items (batch @ [wr]) s1)"

definition batch_size :: nat where
  "batch_size = 500"

text \<open>
  The outer \<^verbatim>\<open>for i in range(0, len(data), batch_size)\<close> (lines 90 to 100 and 144
  to 157), from index \<open>i\<close>; \<open>n\<close> is \<^verbatim>\<open>len(data)\<close>. Only the commit is inside the
  \<^verbatim>\<open>try\<close>.
\<close>

function batch_loop :: "stage \<Rightarrow> string \<Rightarrow> world \<Rightarrow> json \<Rightarrow> nat \<Rightarrow> nat \<Rightarrow> step" where
  "batch_loop stg c w data n i s =
     (if i < n then
        (case py_slice data i (i + batch_size) of
           Inl e \<Rightarrow> (Some e, s)
         | Inr segment \<Rightarrow>
             (case py_iter segment of
                Inl e \<Rightarrow> (Some e, s)
              | Inr items \<Rightarrow>
                  (case stage_segment stg w items [] s of
                     (Inl e, s1) \<Rightarrow> (Some e, s1)
                   | (Inr batch, s1) \<Rightarrow>
                       (case commit w batch s1 of
                          (None, s2) \<Rightarrow>
                            batch_loop stg c w data n (i + batch_size)
                              (emit (Print (BatchCommitted c (min (i + batch_size) n))) s2)
                        | (Some e, s2) \<Rightarrow>
                            batch_loop stg c w data n (i + batch_size)
                              (emit (Print (BatchError c e)) s2)))))
      else (None, s))"
  by pat_completeness auto
termination
  by (relation "measure (\<lambda>(stg, c, w, data, n, i, s). n - i)") (auto simp: batch_size_def)

definition migrate_batched :: "stage \<Rightarrow> string \<Rightarrow> string \<Rightarrow> world \<Rightarrow> step" where
  "migrate_batched stg filepath c w s =
     (case load_json w filepath s of
        (data, s1) \<Rightarrow>
          if truthy data then
            (case py_len data of
               Inl e \<Rightarrow> (Some e, s1)
             | Inr n \<Rightarrow>
                 (case batch_loop stg c w data n 0 s1 of
                    (Some e, s2) \<Rightarrow> (Some e, s2)
                  | (None, s2) \<Rightarrow> (None, emit (Print (Migrated c n)) s2)))
          else (None, s1))"

definition migrate_numeros :: "world \<Rightarrow> step" where
  "migrate_numeros = migrate_batched stage_numero NUMEROS_FILE ''numeros''"

definition migrate_ventas :: "world \<Rightarrow> step" where
  "migrate_ventas = migrate_batched stage_venta VENTAS_FILE ''ventas''"

text \<open>
  3. The schedule (lines 108 to 118): the parsed content under the field
  \<open>horarios\<close>; the \<^verbatim>\<open>len\<close> of the message is inside the \<^verbatim>\<open>try\<close>.
\<close>

definition migrate_horarios_zulia :: "world \<Rightarrow> step" where
  "migrate_horarios_zulia w s =
     (case load_json w HORARIOS_ZULIA_FILE s of
        (horarios_zulia_data, s1) \<Rightarrow>
          if truthy horarios_zulia_data then
            (case doc_set w ((''horarios_zulia'', Named (JStr ''horarios_principales'')),
                             JObj [(''horarios'', horarios_zulia_data)]) s1 of
               (None, s2) \<Rightarrow>
                 (case py_len horarios_zulia_data of
                    Inr n \<Rightarrow> (None, emit (Print (HorariosMigrated n)) s2)
                  | Inl e \<Rightarrow> (None, emit (Print (HorariosError e)) s2))
             | (Some e, s2) \<Rightarrow> (None, emit (Print (HorariosError e)) s2))
          else (None, s1))"

text \<open>
  4., 7. and 8. The unbatched fixtures (lines 122 to 128, 162 to 168, 172 to 179): one
  \<^verbatim>\<open>add\<close> per record, each in its own \<^verbatim>\<open>try\<close>.
\<close>

fun add_each :: "string \<Rightarrow> world \<Rightarrow> json list \<Rightarrow> state \<Rightarrow> state" where
  "add_each c w [] s = s"
| "add_each c w (record # records) s =
     (case add w c record s of
        (None, s1) \<Rightarrow> add_each c w records s1
      | (Some e, s1) \<Rightarrow> add_each c w records (emit (Print (RecordError c record e)) s1))"

definition migrate_unbatched :: "string \<Rightarrow> string \<Rightarrow> world \<Rightarrow> step" where
  "migrate_unbatched filepath c w s =
     (case load_json w filepath s of
        (data, s1) \<Rightarrow>
          if truthy data then
            (case py_iter data of
               Inl e \<Rightarrow> (Some e, s1)
             | Inr records \<Rightarrow>
                 (let s2 = add_each c w records s1 in
                  case py_len data of
                    Inl e \<Rightarrow> (Some e, s2)
                  | Inr n \<Rightarrow> (None, emit (Print (Migrated c n)) s2)))
          else (None, s1))"

definition migrate_ganadores :: "world \<Rightarrow> step" where
  "migrate_ganadores = migrate_unbatched GANADORES_FILE ''ganadores''"

definition migrate_resultados_zulia :: "world \<Rightarrow> step" where
  "migrate_resultados_zulia = migrate_unbatched RESULTADOS_ZULIA_FILE ''resultados_zulia''"

definition migrate_comprobantes :: "world \<Rightarrow> step" where
  "migrate_comprobantes = migrate_unbatched COMPROBANTES_FILE ''comprobantes''"

text \<open>5. The prizes (lines 131 to 138).\<close>

definition migrate_premios :: "world \<Rightarrow> step" where
  "migrate_premios w s =
     (case load_json w PREMIOS_FILE s of
        (premios_data, s1) \<Rightarrow>
          if truthy premios_data then
            (case doc_set w ((''premios'', Named (JStr ''general'')), premios_data) s1 of
               (None, s2) \<Rightarrow> (None, emit (Print PremiosMigrated) s2)
             | (Some e, s2) \<Rightarrow> (None, emit (Print (PremiosError e)) s2))
          else (None, s1))"

subsection \<open>The migration and the script\<close>

text \<open>Statements in sequence: an exception ends the sequence.\<close>

fun run_steps :: "step list \<Rightarrow> step" where
  "run_steps [] s = (None, s)"
| "run_steps (st # sts) s =
     (case st s of
        (None, s1) \<Rightarrow> run_steps sts s1
      | (Some e, s1) \<Rightarrow> (Some e, s1))"

text \<open>The eight fixtures in the order of the source, each with its file.\<close>

definition fixture_steps :: "world \<Rightarrow> (string \<times> step) list" where
  "fixture_steps w =
     [(CONFIGURACION_FILE, migrate_configuracion w),
      (NUMEROS_FILE, migrate_numeros w),
      (HORARIOS_ZULIA_FILE, migrate_horarios_zulia w),
      (GANADORES_FILE, migrate_ganadores w),
      (PREMIOS_FILE, migrate_premios w),
      (VENTAS_FILE, migrate_ventas w),
      (RESULTADOS_ZULIA_FILE, migrate_resultados_zulia w),
      (COMPROBANTES_FILE, migrate_comprobantes w)]"

definition migrate_data :: "world \<Rightarrow> step" where
  "migrate_data w =
     run_steps
       ([\<lambda>s. (None, emit (Print Starting) s)] @ map snd (fixture_steps w) @
        [\<lambda>s. (None, emit (Print ReminderEnv) (emit (Print ReminderBackend) (emit (Print Completed) s)))])"

text \<open>
  The module's first statements (lines 15 to 32): the variable of the environment
  first, the local file when the variable is unset or empty; any exception of the
  block prints three texts and exits.
\<close>

definition credential_source :: "world \<Rightarrow> cred_source" where
  "credential_source w =
     (case environ_key w of
        None \<Rightarrow> LocalFile SERVICE_ACCOUNT_FILE
      | Some cred_json \<Rightarrow>
          if cred_json \<noteq> [] then EnvBlob cred_json else LocalFile SERVICE_ACCOUNT_FILE)"

definition initialization_error :: "world \<Rightarrow> exn option" where
  "initialization_error w =
     (case certificate w (credential_source w) of
        Some e \<Rightarrow> Some e
      | None \<Rightarrow>
          (case initialize_app w of
             Some e \<Rightarrow> Some e
           | None \<Rightarrow> firestore_client w))"

definition initial_state :: "world \<Rightarrow> state" where
  "initial_state w = \<lparr>trace = [], store = database w, next_auto = 0, requests = 0\<rparr>"

datatype outcome = Finished | Exited | Crashed exn

definition main :: "world \<Rightarrow> outcome \<times> state" where
  "main w =
     (let s0 = emit (Credential (credential_source w)) (initial_state w) in
      case initialization_error w of
        Some e \<Rightarrow>
          (Exited, emit (Print InitHintEnv) (emit (Print InitHintFile) (emit (Print (InitError e)) s0)))
      | None \<Rightarrow>
          (case migrate_data w (emit (Print InitOk) s0) of
             (None, s1) \<Rightarrow> (Finished, s1)
           | (Some e, s1) \<Rightarrow> (Crashed e, s1)))"

subsection \<open>Reading a trace\<close>

text \<open>The writes a request asks for, as collection and content, and the files loaded.\<close>

fun written :: "event \<Rightarrow> (string \<times> json) list" where
  "written (DocSet wr r) = [(fst (fst wr), snd wr)]"
| "written (Commit batch r) = map (\<lambda>wr. (fst (fst wr), snd wr)) batch"
| "written (Add c data r) = [(c, data)]"
| "written _ = []"

fun loaded :: "event \<Rightarrow> string list" where
  "loaded (Load filepath) = [filepath]"
| "loaded _ = []"

text \<open>The batches submitted, each as the list of its records.\<close>

fun batches :: "event list \<Rightarrow> json list list" where
  "batches [] = []"
| "batches (Commit batch r # es) = map snd batch # batches es"
| "batches (e # es) = batches es"

text \<open>Every rejected batch is followed at once by the text that reports it.\<close>

fun rejections_reported :: "string \<Rightarrow> event list \<Rightarrow> bool" where
  "rejections_reported c [] = True"
| "rejections_reported c (Commit batch (Some e) # es) =
     (case es of
        [] \<Rightarrow> False
      | e' # es' \<Rightarrow> e' = Print (BatchError c e) \<and> rejections_reported c es')"
| "rejections_reported c (e # es) = rejections_reported c es"

text \<open>The credential sources handed to the library.\<close>

fun credentials :: "event list \<Rightarrow> cred_source list" where
  "credentials [] = []"
| "credentials (Credential src # es) = src # credentials es"
| "credentials (e # es) = credentials es"

text \<open>
  The parsed content of a fixture (\<^verbatim>\<open>None\<close> when there is none) and the elements
  a \<^verbatim>\<open>for\<close> over it visits.
\<close>

definition fixture :: "world \<Rightarrow> string \<Rightarrow> json" where
  "fixture w filepath = (case files w filepath of Parsed v \<Rightarrow> v | _ \<Rightarrow> JNull)"

definition elements :: "json \<Rightarrow> json list" where
  "elements data = (case py_iter data of Inr xs \<Rightarrow> xs | Inl e \<Rightarrow> [])"

text \<open>
  The source data, collection by collection, exactly as parsed: the whole content for
  the configuration and the prizes, each element for the five list fixtures, and for
  the schedule the whole content under the one field \<open>horarios\<close>. A fixture whose
  content is empty (or that has none) contributes nothing.
\<close>

definition whole_document :: "string \<Rightarrow> json \<Rightarrow> (string \<times> json) list" where
  "whole_document c data = (if truthy data then [(c, data)] else [])"

definition verbatim_writes :: "world \<Rightarrow> (string \<times> json) list" where
  "verbatim_writes w =
     whole_document ''configuracion'' (fixture w CONFIGURACION_FILE) @
     map (Pair ''numeros'') (elements (fixture w NUMEROS_FILE)) @
     (if truthy (fixture w HORARIOS_ZULIA_FILE)
      then [(''horarios_zulia'', JObj [(''horarios'', fixture w HORARIOS_ZULIA_FILE)])] else []) @
     map (Pair ''ganadores'') (elements (fixture w GANADORES_FILE)) @
     whole_document ''premios'' (fixture w PREMIOS_FILE) @
     map (Pair ''ventas'') (elements (fixture w VENTAS_FILE)) @
     map (Pair ''resultados_zulia'') (elements (fixture w RESULTADOS_ZULIA_FILE)) @
     map (Pair ''comprobantes'') (elements (fixture w COMPROBANTES_FILE))"

text \<open>An event of the migration proper: its writes are among \<open>A\<close>, and it is no credential event.\<close>

definition writes_within :: "(string \<times> json) set \<Rightarrow> event \<Rightarrow> bool" where
  "writes_within A e = (set (written e) \<subseteq> A \<and> credentials [e] = [])"

definition extends_within :: "(string \<times> json) set \<Rightarrow> state \<Rightarrow> state \<Rightarrow> bool" where
  "extends_within A s s' = (\<exists>evs. trace s' = trace s @ evs \<and> list_all (writes_within A) evs)"

definition step_within :: "(string \<times> json) set \<Rightarrow> step \<Rightarrow> bool" where
  "step_within A st = (\<forall>s r s'. st s = (r, s') \<longrightarrow> extends_within A s s')"

text \<open>The records the run asked the destination to add, each with its collection.\<close>

fun attempts :: "event list \<Rightarrow> (string \<times> json) list" where
  "attempts [] = []"
| "attempts (Add c data r # es) = (c, data) # attempts es"
| "attempts (e # es) = attempts es"

text \<open>
  Every \<^verbatim>\<open>add\<close> that raised is followed at once by the text that reports it, with
  the record and the exception.
\<close>

fun failures_reported :: "event list \<Rightarrow> bool" where
  "failures_reported [] = True"
| "failures_reported (Add c data (Some e) # es) =
     (case es of
        [] \<Rightarrow> False
      | e' # es' \<Rightarrow> e' = Print (RecordError c data e) \<and> failures_reported es')"
| "failures_reported (e # es) = failures_reported es"

text \<open>
  What staging one record may do: it sends nothing and stores nothing, and the write it
  stages holds the record itself, for a document of the collection \<open>c\<close>.
\<close>

definition staging :: "stage \<Rightarrow> string \<Rightarrow> bool" where
  "staging stg c =
     (\<forall>w x s r s1. stg w x s = (r, s1) \<longrightarrow>
        trace s1 = trace s \<and> store s1 = store s \<and> requests s1 = requests s \<and>
        (\<forall>wr. r = Inr wr \<longrightarrow> snd wr = x \<and> fst (fst wr) = c))"



text \<open>Staging the record cannot raise, whatever the state.\<close>

definition always_stages :: "stage \<Rightarrow> world \<Rightarrow> json \<Rightarrow> bool" where
  "always_stages stg w x = (\<forall>s. \<exists>wr s1. stg w x s = (Inr wr, s1))"

text \<open>The events a step adds to the trace.\<close>

definition new_events :: "state \<Rightarrow> state \<Rightarrow> event list" where
  "new_events s s' = drop (length (trace s)) (trace s')"

text \<open>
  A record that the batching loop can stage: a numbers record has the key field, the
  library accepts the identity (or there is none), and the library accepts the record.
\<close>

definition can_stage_numero :: "world \<Rightarrow> json \<Rightarrow> bool" where
  "can_stage_numero w x =
     (case py_getitem x ''numero'' of
        Inl e \<Rightarrow> False
      | Inr v \<Rightarrow> (v = JNull \<or> document_raises w v = None) \<and> batch_set_raises w x = None)"

definition can_stage_venta :: "world \<Rightarrow> json \<Rightarrow> bool" where
  "can_stage_venta w x = (batch_set_raises w x = None)"

subsection \<open>Example worlds\<close>

text \<open>No variable, no fixture file, an empty destination, and nothing raises.\<close>

definition quiet_world :: world where
  "quiet_world =
     \<lparr>environ_key = None, certificate = (\<lambda>src. None), initialize_app = None,
      firestore_client = None, files = (\<lambda>filepath. Absent),
      now = (\<lambda>offset. \<lparr>year = 2025, month = 6, day = 1, hour = 12, minute = 0, second = 0\<rparr>),
      database = (\<lambda>doc. None), document_raises = (\<lambda>v. None),
      batch_set_raises = (\<lambda>data. None), network = (\<lambda>k. None)\<rparr>"

definition numero_001 :: json where
  "numero_001 = JObj [(''numero'', JStr ''001''), (''comprado'', JBool False)]"

definition numero_002 :: json where
  "numero_002 = JObj [(''numero'', JStr ''002''), (''comprado'', JBool True)]"


definition with_file :: "string \<Rightarrow> fixture_file \<Rightarrow> world \<Rightarrow> world" where
  "with_file filepath f w = w\<lparr>files := (files w)(filepath := f)\<rparr>"

text \<open>A numbers fixture of two records.\<close>

definition numeros_world :: world where
  "numeros_world = with_file NUMEROS_FILE (Parsed (JArr [numero_001, numero_002])) quiet_world"


text \<open>A sales fixture of 501 records, and a destination that rejects every request.\<close>

definition venta_1 :: json where
  "venta_1 = JObj [(''ticketNumber'', JInt 1), (''numeros'', JArr [JStr ''001''])]"

definition rejecting_world :: world where
  "rejecting_world =
     (with_file VENTAS_FILE (Parsed (JArr (replicate 501 venta_1))) quiet_world)
       \<lparr>network := (\<lambda>k. Some (OtherError ''unavailable''))\<rparr>"

text \<open>A winners fixture of two records, and a destination that rejects the first request.\<close>

definition ganador_1 :: json where
  "ganador_1 = JObj [(''nombre'', JStr ''Ana''), (''numero'', JStr ''001'')]"

definition ganador_2 :: json where
  "ganador_2 = JObj [(''nombre'', JStr ''Luis''), (''numero'', JStr ''002'')]"

definition ganadores_world :: world where
  "ganadores_world =
     (with_file GANADORES_FILE (Parsed (JArr [ganador_1, ganador_2])) quiet_world)
       \<lparr>network := (\<lambda>k. if k = 0 then Some (OtherError ''unavailable'') else None)\<rparr>"


text \<open>
  A blob in the variable that the library refuses, beside fixtures that are all there:
  a numbers fixture, and a configuration.
\<close>

definition bad_blob_world :: world where
  "bad_blob_world =
     (with_file CONFIGURACION_FILE (Parsed (JObj [(''precio'', JInt 5)])) numeros_world)
       \<lparr>environ_key := Some ''not a credential'',
        certificate := (\<lambda>src. case src of EnvBlob b \<Rightarrow> Some (OtherError ''invalid certificate'')
                                        | LocalFile p \<Rightarrow> None)\<rparr>"

text \<open>A configuration, two numbers and a schedule; the other fixtures are absent.\<close>

definition horarios_example :: json where
  "horarios_example = JArr [JStr ''12:00'', JStr ''16:00'']"

definition configuracion_example :: json where
  "configuracion_example = JObj [(''precio'', JInt 5)]"

definition three_fixtures_world :: world where
  "three_fixtures_world =
     with_file HORARIOS_ZULIA_FILE (Parsed horarios_example)
       (with_file CONFIGURACION_FILE (Parsed configuracion_example) numeros_world)"

text \<open>The texts a trace prints.\<close>

fun printed :: "event \<Rightarrow> line list" where
  "printed (Print l) = [l]"
| "printed _ = []"

text \<open>A numbers fixture that is the empty list.\<close>

definition empty_numeros_world :: world where
  "empty_numeros_world = with_file NUMEROS_FILE (Parsed (JArr [])) quiet_world"

text \<open>
  A numbers fixture whose one record has no field \<open>numero\<close>, beside a configuration
  and a schedule.
\<close>

definition keyless_world :: world where
  "keyless_world =
     with_file NUMEROS_FILE (Parsed (JArr [JObj [(''id'', JInt 1)]])) three_fixtures_world"

text \<open>
  A numbers fixture of two records, the second without the field \<open>numero\<close>.
\<close>

definition half_keyless_world :: world where
  "half_keyless_world =
     with_file NUMEROS_FILE (Parsed (JArr [numero_001, JObj [(''id'', JInt 2)]])) quiet_world"

text \<open>The records of the raffle numbers 000, 001, ... and of the sales of one number each.\<close>

definition numero_record :: "nat \<Rightarrow> json" where
  "numero_record k = JObj [(''numero'', JStr (zero_padded 3 k)), (''comprado'', JBool False)]"

definition venta_record :: "nat \<Rightarrow> json" where
  "venta_record k =
     JObj [(''ticketNumber'', JInt (int k)), (''numeros'', JArr [JStr (zero_padded 3 k)])]"

text \<open>
  A sales fixture of 501 elements, the last of them a number and no record, with a
  library that refuses to stage what is not an object.
\<close>

definition refused_sale_world :: world where
  "refused_sale_world =
     (with_file VENTAS_FILE (Parsed (JArr (map venta_record [0..<500] @ [JInt 7]))) quiet_world)
       \<lparr>batch_set_raises :=
          (\<lambda>data. case data of JObj kvs \<Rightarrow> None | _ \<Rightarrow> Some (OtherError ''AttributeError''))\<rparr>"

text \<open>
  A numbers fixture of 501 records, the last of them without the field \<open>numero\<close>,
  and a destination that rejects every request.
\<close>

definition late_keyless_world :: world where
  "late_keyless_world =
     (with_file NUMEROS_FILE
        (Parsed (JArr (map numero_record [0..<500] @ [JObj [(''id'', JInt 501)]]))) quiet_world)
       \<lparr>network := (\<lambda>k. Some (OtherError ''unavailable''))\<rparr>"







section \<open>Properties of the encoder\<close>

lemma index_of_nth: "distinct xs \<Longrightarrow> n < length xs \<Longrightarrow> index_of (xs ! n) xs = Some n"
proof (induction xs arbitrary: n)
  case Nil
  then show ?case by simp
next
  case (Cons x xs)
  show ?case
  proof (cases n)
    case 0
    then show ?thesis by simp
  next
    case (Suc m)
    with Cons.prems have "xs ! m \<in> set xs" "x \<notin> set xs" by auto
    then have "x \<noteq> xs ! m" by auto
    with Cons Suc show ?thesis by auto
  qed
qed

lemma distinct_b64alphabet: "distinct b64alphabet"
  unfolding b64alphabet_def by simp

lemma length_b64alphabet: "length b64alphabet = 64"
  unfolding b64alphabet_def by simp

lemma b64val_b64char: "n < 64 \<Longrightarrow> b64val (b64char n) = Some n"
  unfolding b64val_def b64char_def
  by (rule index_of_nth) (simp_all add: distinct_b64alphabet length_b64alphabet)

lemma pad_not_in_alphabet: "CHR ''='' \<notin> set b64alphabet"
  unfolding b64alphabet_def by simp

lemma dash_not_in_alphabet: "CHR ''-'' \<notin> set b64alphabet"
  unfolding b64alphabet_def by simp

lemma b64char_in_alphabet: "n < 64 \<Longrightarrow> b64char n \<in> set b64alphabet"
  by (simp add: b64char_def length_b64alphabet)

lemma b64char_not_pad: "n < 64 \<Longrightarrow> b64char n \<noteq> CHR ''=''"
  using pad_not_in_alphabet b64char_in_alphabet by metis

lemma div_hi: fixes a q n :: nat shows "q < n \<Longrightarrow> (a * n + q) div n = a"
  by simp

lemma mod_lo: fixes a q n :: nat shows "q < n \<Longrightarrow> (a * n + q) mod n = q"
  by simp

lemma q16: fixes y :: nat shows "y < 256 \<Longrightarrow> y div 16 < 16"
  by simp

lemma q64: fixes z :: nat shows "z < 256 \<Longrightarrow> z div 64 < 4"
  by simp

lemma sextet1: fixes x :: nat shows "x < 256 \<Longrightarrow> x div 4 < 64"
  by simp

lemma sextet2': fixes x :: nat shows "x mod 4 * 16 < 64"
proof -
  have "x mod 4 < 4" by simp
  then show ?thesis by linarith
qed

lemma sextet2: fixes x y :: nat shows "y < 256 \<Longrightarrow> x mod 4 * 16 + y div 16 < 64"
proof -
  assume "y < 256"
  then have "y div 16 < 16" by simp
  moreover have "x mod 4 < 4" by simp
  ultimately show ?thesis by linarith
qed

lemma sextet3': fixes y :: nat shows "y mod 16 * 4 < 64"
proof -
  have "y mod 16 < 16" by simp
  then show ?thesis by linarith
qed

lemma sextet3: fixes y z :: nat shows "z < 256 \<Longrightarrow> y mod 16 * 4 + z div 64 < 64"
proof -
  assume "z < 256"
  then have "z div 64 < 4" by simp
  moreover have "y mod 16 < 16" by simp
  ultimately show ?thesis by linarith
qed

lemma sextet4: fixes z :: nat shows "z mod 64 < 64"
  by simp

lemma regroup1:
  fixes x y :: nat
  shows "y < 256 \<Longrightarrow> x div 4 * 4 + (x mod 4 * 16 + y div 16) div 16 = x"
  by (simp only: div_hi[OF q16] div_mult_mod_eq)

lemma regroup1': fixes x :: nat shows "x div 4 * 4 + (x mod 4 * 16) div 16 = x"
  by simp

lemma regroup2:
  fixes x y z :: nat
  shows "y < 256 \<Longrightarrow> z < 256 \<Longrightarrow>
    (x mod 4 * 16 + y div 16) mod 16 * 16 + (y mod 16 * 4 + z div 64) div 4 = y"
  by (simp only: div_hi[OF q64] mod_lo[OF q16] div_mult_mod_eq)

lemma regroup2':
  fixes x y :: nat
  shows "y < 256 \<Longrightarrow> (x mod 4 * 16 + y div 16) mod 16 * 16 + (y mod 16 * 4) div 4 = y"
  using mod_lo[OF q16, of y "x mod 4"] by simp

lemma regroup3:
  fixes y z :: nat
  shows "z < 256 \<Longrightarrow> (y mod 16 * 4 + z div 64) mod 4 * 64 + z mod 64 = z"
  by (simp only: mod_lo[OF q64] div_mult_mod_eq)

lemma unat_byte_lt: "unat (a :: byte) < 256"
  using unsigned_less[of a, where 'a=nat] by simp


lemma quad_full:
  fixes a b c :: byte
  shows "b64decode (b64char (unat a div 4) # b64char (unat a mod 4 * 16 + unat b div 16) #
     b64char (unat b mod 16 * 4 + unat c div 64) # b64char (unat c mod 64) # rest)
   = map_option (\<lambda>bs. a # b # c # bs) (b64decode rest)"
proof -
  have v: "b64val (b64char (unat a div 4)) = Some (unat a div 4)"
    "b64val (b64char (unat a mod 4 * 16 + unat b div 16)) = Some (unat a mod 4 * 16 + unat b div 16)"
    "b64val (b64char (unat b mod 16 * 4 + unat c div 64)) = Some (unat b mod 16 * 4 + unat c div 64)"
    "b64val (b64char (unat c mod 64)) = Some (unat c mod 64)"
    by (simp_all only: b64val_b64char sextet1 sextet2 sextet3 sextet4 unat_byte_lt)
  have p: "b64char (unat b mod 16 * 4 + unat c div 64) \<noteq> CHR ''=''"
    "b64char (unat c mod 64) \<noteq> CHR ''=''"
    by (rule b64char_not_pad[OF sextet3[OF unat_byte_lt]], rule b64char_not_pad[OF sextet4])
  have r: "unat a div 4 * 4 + (unat a mod 4 * 16 + unat b div 16) div 16 = unat a"
    "(unat a mod 4 * 16 + unat b div 16) mod 16 * 16 + (unat b mod 16 * 4 + unat c div 64) div 4 = unat b"
    "(unat b mod 16 * 4 + unat c div 64) mod 4 * 64 + unat c mod 64 = unat c"
    by (simp_all only: regroup1 regroup2 regroup3 unat_byte_lt)
  show ?thesis
    by (simp only: b64decode.simps v p r prod.case option.case if_False simp_thms of_nat_unat ucast_id
         split: option.split) (simp split: option.split)
qed

lemma quad_one:
  fixes a :: byte
  shows "b64decode [b64char (unat a div 4), b64char (unat a mod 4 * 16), CHR ''='', CHR ''='']
   = Some [a]"
proof -
  have v: "b64val (b64char (unat a div 4)) = Some (unat a div 4)"
    "b64val (b64char (unat a mod 4 * 16)) = Some (unat a mod 4 * 16)"
    by (simp_all only: b64val_b64char sextet1 sextet2' unat_byte_lt)
  have r: "unat a div 4 * 4 + (unat a mod 4 * 16) div 16 = unat a"
    by (rule regroup1')
  show ?thesis
    by (simp only: b64decode.simps v r prod.case option.case simp_thms if_True of_nat_unat ucast_id)
qed

lemma quad_two:
  fixes a b :: byte
  shows "b64decode [b64char (unat a div 4), b64char (unat a mod 4 * 16 + unat b div 16),
      b64char (unat b mod 16 * 4), CHR ''='']
   = Some [a, b]"
proof -
  have v: "b64val (b64char (unat a div 4)) = Some (unat a div 4)"
    "b64val (b64char (unat a mod 4 * 16 + unat b div 16)) = Some (unat a mod 4 * 16 + unat b div 16)"
    "b64val (b64char (unat b mod 16 * 4)) = Some (unat b mod 16 * 4)"
    by (simp_all only: b64val_b64char sextet1 sextet2 sextet3' unat_byte_lt)
  have p: "b64char (unat b mod 16 * 4) \<noteq> CHR ''=''"
    by (rule b64char_not_pad[OF sextet3'])
  have r: "unat a div 4 * 4 + (unat a mod 4 * 16 + unat b div 16) div 16 = unat a"
    "(unat a mod 4 * 16 + unat b div 16) mod 16 * 16 + (unat b mod 16 * 4) div 4 = unat b"
    by (simp_all only: regroup1 regroup2' unat_byte_lt)
  show ?thesis
    by (simp only: b64decode.simps v p r prod.case option.case simp_thms if_True if_False
          of_nat_unat ucast_id)
qed

lemma b64_roundtrip: "b64decode (b64encode bs) = Some bs"
proof (induction bs rule: b64encode.induct)
  case 1
  show ?case by simp
next
  case (2 a)
  show ?case by (simp only: b64encode.simps quad_one)
next
  case (3 a b)
  show ?case by (simp only: b64encode.simps quad_two)
next
  case (4 a b c rest)
  then show ?case by (simp only: b64encode.simps quad_full option.map)
qed

lemma b64encode_chars: "set (b64encode bs) \<subseteq> insert (CHR ''='') (set b64alphabet)"
proof (induction bs rule: b64encode.induct)
  case 1
  show ?case by simp
next
  case (2 a)
  show ?case
    using b64char_in_alphabet[OF sextet1[OF unat_byte_lt[of a]]]
      b64char_in_alphabet[OF sextet2'[of "unat a"]]
    by simp
next
  case (3 a b)
  show ?case
    using b64char_in_alphabet[OF sextet1[OF unat_byte_lt[of a]]]
      b64char_in_alphabet[OF sextet2[OF unat_byte_lt[of b], of "unat a"]]
      b64char_in_alphabet[OF sextet3'[of "unat b"]]
    by simp
next
  case (4 a b c rest)
  then show ?case
    using b64char_in_alphabet[OF sextet1[OF unat_byte_lt[of a]]]
      b64char_in_alphabet[OF sextet2[OF unat_byte_lt[of b], of "unat a"]]
      b64char_in_alphabet[OF sextet3[OF unat_byte_lt[of c], of "unat b"]]
      b64char_in_alphabet[OF sextet4[of "unat c"]]
    by simp
qed

lemma b64encode_no_dash: "CHR ''-'' \<notin> set (b64encode bs)"
  using b64encode_chars[of bs] dash_not_in_alphabet by auto

lemma b64encode_not_marker: "b64encode bs \<noteq> begin_marker" "b64encode bs \<noteq> end_marker"
proof -
  have "CHR ''-'' \<in> set begin_marker" "CHR ''-'' \<in> set end_marker"
    by (simp_all add: begin_marker_def end_marker_def)
  then show "b64encode bs \<noteq> begin_marker" "b64encode bs \<noteq> end_marker"
    using b64encode_no_dash[of bs] by metis+
qed

text \<open>
  Claim C2. For every input file whose bytes the encoder reads, the text it prints
  between the start and the end marker is a single text, and base64-decoding it gives
  back the bytes of the file exactly.
\<close>

theorem encoder_roundtrip:
  "\<exists>t. between_markers (encode_key (FileBytes bs)) = [t] \<and> b64decode t = Some bs"
proof -
  have "between_markers (encode_key (FileBytes bs)) = [b64encode bs]"
    by (simp add: between_markers_def encode_key_def b64encode_not_marker)
  then show ?thesis using b64_roundtrip by blast
qed

text \<open>
  Claim C9. When the credential file is absent the encoder prints exactly one text, the
  error line (it holds no line break), and nothing else: no marker and no encoded text.
  The last conjunct spells the line out.
\<close>

theorem encoder_missing_file:
  "encode_key NoFile = [not_found_line] \<and> CHR 0x0A \<notin> set not_found_line
    \<and> between_markers (encode_key NoFile) = []
    \<and> begin_marker \<notin> set (encode_key NoFile) \<and> end_marker \<notin> set (encode_key NoFile)
    \<and> encode_key NoFile =
        [''Error: Archivo '' @ [CHR 0x27] @
         ''tu-oportunidad-es-hoy-firebase-adminsdk-fbsvc-781e9f9dc1.json'' @ [CHR 0x27] @
         '' no encontrado en el directorio actual.'']"
  by (simp add: encode_key_def between_markers_def not_found_line_def begin_marker_def
        end_marker_def SERVICE_ACCOUNT_FILE_def)


section \<open>Properties of the migrator\<close>

subsection \<open>The batching loop\<close>


declare batch_loop.simps [simp del]

lemma trace_emit: "trace (emit e s) = trace s @ [e]"
  by (simp add: emit_def)

lemma emit_fields:
  "store (emit e s) = store s" "next_auto (emit e s) = next_auto s" "requests (emit e s) = requests s"
  by (simp_all add: emit_def)

lemma document_fields:
  "document w c v s = (r, s1) \<Longrightarrow>
     trace s1 = trace s \<and> store s1 = store s \<and> requests s1 = requests s
       \<and> (\<forall>d. r = Inr d \<longrightarrow> fst d = c)"
  by (auto simp: document_def split: if_splits option.splits)

lemma staging_numero: "staging stage_numero ''numeros''"
  unfolding staging_def stage_numero_def
  by (auto split: sum.splits option.splits prod.splits dest: document_fields)

lemma staging_venta: "staging stage_venta ''ventas''"
  unfolding staging_def stage_venta_def
  by (auto split: sum.splits option.splits prod.splits dest: document_fields)

lemma stage_segment_fields:
  assumes "staging stg c"
  shows "stage_segment stg w items batch s = (r, s1) \<Longrightarrow>
     trace s1 = trace s \<and> store s1 = store s \<and> requests s1 = requests s"
proof (induction items arbitrary: batch s)
  case Nil
  then show ?case by auto
next
  case (Cons x items)
  obtain r0 s0 where st: "stg w x s = (r0, s0)" by (cases "stg w x s")
  with assms have eq: "trace s0 = trace s" "store s0 = store s" "requests s0 = requests s"
    unfolding staging_def by blast+
  show ?case
  proof (cases r0)
    case (Inl e)
    with st Cons.prems eq show ?thesis by auto
  next
    case (Inr wr)
    with st Cons.prems have "stage_segment stg w items (batch @ [wr]) s0 = (r, s1)" by simp
    from Cons.IH[OF this] eq show ?thesis by simp
  qed
qed

lemma stage_segment_Inr:
  assumes "staging stg c"
  shows "stage_segment stg w items batch s = (Inr b, s1) \<Longrightarrow>
     map snd b = map snd batch @ items \<and> map (\<lambda>wr. fst (fst wr)) b = map (\<lambda>wr. fst (fst wr)) batch @ map (\<lambda>x. c) items"
proof (induction items arbitrary: batch s)
  case Nil
  then show ?case by simp
next
  case (Cons x items)
  from Cons.prems obtain wr s0 where st: "stg w x s = (Inr wr, s0)"
    and rest: "stage_segment stg w items (batch @ [wr]) s0 = (Inr b, s1)"
    by (auto split: prod.splits sum.splits)
  from assms st have "snd wr = x" "fst (fst wr) = c"
    unfolding staging_def by blast+
  with Cons.IH[OF rest] show ?case by simp
qed

lemma commit_fields:
  "commit w batch s = (r, s1) \<Longrightarrow>
     trace s1 = trace s @ [Commit batch r] \<and> requests s1 = Suc (requests s) \<and>
     next_auto s1 = next_auto s \<and> r = network w (requests s) \<and>
     store s1 = (if r = None then apply_writes batch (store s) else store s)"
  by (auto simp: commit_def Let_def)

lemma slice_rest: "drop i (take (i + k) xs) @ drop (i + k) xs = drop i xs"
proof -
  have "drop i xs = drop i (take (i + k) xs @ drop (i + k) xs)" by simp
  also have "\<dots> = drop i (take (i + k) xs) @ drop (i - length (take (i + k) xs)) (drop (i + k) xs)"
    by (rule drop_append)
  also have "i - length (take (i + k) xs) = 0" if "i \<le> length xs" using that by simp
  finally show ?thesis
    by (cases "i \<le> length xs") auto
qed

lemma count_step: "i < n \<Longrightarrow> Suc ((n - (i + 500) + 499) div 500) = (n - i + 499) div (500::nat)"
proof -
  assume a: "i < n"
  show ?thesis
  proof (cases "i + 500 \<le> n")
    case True
    then have e: "n - i + 499 = (n - (i + 500) + 499) + 500" by linarith
    have "((n - (i + 500) + 499) + 500) div 500 = Suc ((n - (i + 500) + 499) div 500)"
      by simp
    with e show ?thesis by (simp only:)
  next
    case False
    with a have z: "n - (i + 500) = 0" and b: "500 \<le> n - i + 499" "n - i + 499 < 1000" by linarith+
    have "(n - i + 499) div 500 = 1"
      using b by (intro div_nat_eqI) simp_all
    moreover have "(n - (i + 500) + 499) div 500 = 0" using z by simp
    ultimately show ?thesis by simp
  qed
qed

lemma count_done: "\<not> i < n \<Longrightarrow> (n - i + 499) div (500::nat) = 0"
  by simp

lemma batch_loop_arr:
  "staging stg c \<Longrightarrow>
   batch_loop stg c w data n i s = (r, s') \<Longrightarrow> data = JArr xs \<Longrightarrow> n = length xs \<Longrightarrow>
    \<exists>evs. trace s' = trace s @ evs \<and> rejections_reported c evs \<and>
       (\<forall>b \<in> set (batches evs). length b \<le> batch_size) \<and>
       (r = None \<longrightarrow> concat (batches evs) = drop i xs \<and>
          length (batches evs) = (n - i + 499) div 500)"
proof (induction stg c w data n i s arbitrary: r s' rule: batch_loop.induct)
  case (1 stg c w data n i s)
  note stg = "1.prems"(1)
  note run = "1.prems"(2)
  note dat = "1.prems"(3,4)
  show ?case
  proof (cases "i < n")
    case False
    with run have "s' = s" "r = None" by (simp_all add: batch_loop.simps[of stg c w data n i s])
    with False dat show ?thesis by simp
  next
    case True
    define items where "items = drop i (take (i + batch_size) xs)"
    have sl: "py_slice data i (i + batch_size) = Inr (JArr items)"
      using dat by (simp add: items_def)
    obtain rb s1 where seg: "stage_segment stg w items [] s = (rb, s1)"
      by (cases "stage_segment stg w items [] s")
    have f1: "trace s1 = trace s" "store s1 = store s" "requests s1 = requests s"
      using stage_segment_fields[OF stg seg] by simp_all
    show ?thesis
    proof (cases rb)
      case (Inl e)
      with True sl seg run have "s' = s1" "r = Some e"
        by (simp_all add: batch_loop.simps[of stg c w data n i s])
      with f1 show ?thesis by simp
    next
      case (Inr batch)
      have content: "map snd batch = items"
        using stage_segment_Inr[OF stg, of w items "[]" s batch s1] seg Inr by simp
      obtain rc s2 where cm: "commit w batch s1 = (rc, s2)" by (cases "commit w batch s1")
      have f2: "trace s2 = trace s @ [Commit batch rc]"
        using commit_fields[OF cm] f1 by simp
      define p where "p = (case rc of None \<Rightarrow> Print (BatchCommitted c (min (i + batch_size) n))
                             | Some e \<Rightarrow> Print (BatchError c e))"
      have rec: "batch_loop stg c w data n (i + batch_size) (emit p s2) = (r, s')"
        using True sl seg Inr cm run
        by (simp add: batch_loop.simps[of stg c w data n i s] p_def split: option.splits)
      have "\<exists>evs. trace s' = trace (emit p s2) @ evs \<and> rejections_reported c evs \<and>
         (\<forall>b \<in> set (batches evs). length b \<le> batch_size) \<and>
         (r = None \<longrightarrow> concat (batches evs) = drop (i + batch_size) xs \<and>
            length (batches evs) = (n - (i + batch_size) + 499) div 500)"
      proof (cases rc)
        case None
        with rec p_def have rec': "batch_loop stg c w data n (i + batch_size)
           (emit (Print (BatchCommitted c (min (i + batch_size) n))) s2) = (r, s')" by simp
        from "1.IH"(1)[OF True sl _ seg[unfolded Inr, symmetric] _ cm[unfolded None, symmetric] _ stg rec' dat]
        show ?thesis using None p_def by simp
      next
        case (Some e)
        with rec p_def have rec': "batch_loop stg c w data n (i + batch_size)
           (emit (Print (BatchError c e)) s2) = (r, s')" by simp
        from "1.IH"(2)[OF True sl _ seg[unfolded Inr, symmetric] _ cm[unfolded Some, symmetric] _ stg rec' dat]
        show ?thesis using Some p_def by simp
      qed
      then obtain evs where evs: "trace s' = trace (emit p s2) @ evs" "rejections_reported c evs"
         "\<forall>b \<in> set (batches evs). length b \<le> batch_size"
         "r = None \<longrightarrow> concat (batches evs) = drop (i + batch_size) xs \<and>
            length (batches evs) = (n - (i + batch_size) + 499) div 500"
        by blast
      let ?evs = "Commit batch rc # p # evs"
      have t: "trace s' = trace s @ ?evs"
        using evs(1) f2 by (simp add: trace_emit)
      have rr: "rejections_reported c ?evs"
        using evs(2) by (cases rc) (simp_all add: p_def)
      have bs: "batches ?evs = items # batches evs"
        by (cases rc) (simp_all add: p_def content)
      have len: "length items \<le> batch_size" by (simp add: items_def)
      have cc: "r = None \<longrightarrow> concat (batches ?evs) = drop i xs \<and>
          length (batches ?evs) = (n - i + 499) div 500"
        using evs(4) bs slice_rest[of i batch_size xs] count_step[OF True]
        by (auto simp: items_def batch_size_def)
      from t rr bs len evs(3) cc show ?thesis by (intro exI[of _ ?evs]) simp
    qed
  qed
qed

subsection \<open>Evaluating the examples\<close>


lemmas world_simps = numeros_world_def with_file_def quiet_world_def
lemmas file_names = CONFIGURACION_FILE_def NUMEROS_FILE_def HORARIOS_ZULIA_FILE_def GANADORES_FILE_def
  PREMIOS_FILE_def VENTAS_FILE_def RESULTADOS_ZULIA_FILE_def COMPROBANTES_FILE_def
lemmas run_simps = migrate_numeros_def migrate_ventas_def migrate_batched_def load_json_def emit_def
  batch_loop.simps batch_size_def stage_numero_def stage_venta_def document_def commit_def
  apply_writes_def initial_state_def Let_def

subsection \<open>The batched fixtures\<close>


lemma batches_append: "batches (a @ b) = batches a @ batches b"
  by (induction a rule: batches.induct) simp_all

lemma rejections_reported_append:
  "rejections_reported c a \<Longrightarrow> rejections_reported c b \<Longrightarrow> rejections_reported c (a @ b)"
  by (induction c a rule: rejections_reported.induct) (auto split: list.splits)

lemma new_events_append: "trace s' = trace s @ evs \<Longrightarrow> new_events s s' = evs"
  by (simp add: new_events_def)

lemma load_json_Parsed:
  "files w f = Parsed v \<Longrightarrow> load_json w f s = (v, emit (Load f) s)"
  by (simp add: load_json_def)

lemma migrate_batched_arr:
  assumes stg: "staging stg c" and fil: "files w f = Parsed (JArr xs)"
    and run: "migrate_batched stg f c w s = (r, s')"
  shows "\<exists>evs. trace s' = trace s @ evs \<and> rejections_reported c evs \<and>
       (\<forall>b \<in> set (batches evs). length b \<le> batch_size) \<and>
       (r = None \<longrightarrow> concat (batches evs) = xs \<and>
          length (batches evs) = (length xs + 499) div 500)"
proof (cases "xs = []")
  case True
  with run fil have "s' = emit (Load f) s" "r = None"
    by (simp_all add: migrate_batched_def load_json_Parsed)
  with True show ?thesis by (simp add: trace_emit)
next
  case False
  obtain r2 s2 where loop: "batch_loop stg c w (JArr xs) (length xs) 0 (emit (Load f) s) = (r2, s2)"
    by (cases "batch_loop stg c w (JArr xs) (length xs) 0 (emit (Load f) s)")
  from batch_loop_arr[OF stg loop refl refl]
  obtain evs where evs: "trace s2 = trace (emit (Load f) s) @ evs" "rejections_reported c evs"
    "\<forall>b \<in> set (batches evs). length b \<le> batch_size"
    "r2 = None \<longrightarrow> concat (batches evs) = drop 0 xs \<and> length (batches evs) = (length xs - 0 + 499) div 500"
    by blast
  show ?thesis
  proof (cases r2)
    case None
    with run fil False loop have "r = None" "s' = emit (Print (Migrated c (length xs))) s2"
      by (simp_all add: migrate_batched_def load_json_Parsed)
    then have "trace s' = trace s @ (Load f # evs @ [Print (Migrated c (length xs))])"
      using evs(1) by (simp add: trace_emit)
    moreover have "rejections_reported c (Load f # evs @ [Print (Migrated c (length xs))])"
      using evs(2) by (simp add: rejections_reported_append)
    moreover have "batches (Load f # evs @ [Print (Migrated c (length xs))]) = batches evs"
      by (simp add: batches_append)
    ultimately show ?thesis using evs(3,4) None by auto
  next
    case (Some e)
    with run fil False loop have "r = Some e" "s' = s2"
      by (simp_all add: migrate_batched_def load_json_Parsed)
    then have "trace s' = trace s @ (Load f # evs)"
      using evs(1) by (simp add: trace_emit)
    with evs(2,3) \<open>r = Some e\<close> show ?thesis by auto
  qed
qed

text \<open>
  A fan-out that runs to its end. For a numbers or sales fixture that is a list of N
  records and whose step completes, the migrator submits exactly ceil(N/500) batches,
  no batch holds more than 500 records, and the batches, one after the other, are the
  N records in their order: each record is in exactly one batch.
\<close>

lemma batched_fanout_partition:
  assumes "(step, filepath) = (migrate_numeros w, NUMEROS_FILE) \<or>
           (step, filepath) = (migrate_ventas w, VENTAS_FILE)"
    and "files w filepath = Parsed (JArr xs)"
    and "step s = (None, s')"
  shows "length (batches (new_events s s')) = (length xs + 499) div 500 \<and>
         (\<forall>b \<in> set (batches (new_events s s')). length b \<le> 500) \<and>
         concat (batches (new_events s s')) = xs"
proof -
  from assms(1) obtain stg c where stg: "staging stg c"
    and step: "step = migrate_batched stg filepath c w"
    using staging_numero staging_venta
    by (auto simp: migrate_numeros_def migrate_ventas_def)
  from migrate_batched_arr[OF stg assms(2) assms(3)[unfolded step]]
  obtain evs where "trace s' = trace s @ evs"
    "\<forall>b \<in> set (batches evs). length b \<le> batch_size"
    "concat (batches evs) = xs" "length (batches evs) = (length xs + 499) div 500"
    by blast
  then show ?thesis
    by (simp add: new_events_append batch_size_def)
qed

lemma numeros_world_run:
  "fst (migrate_numeros numeros_world (initial_state numeros_world)) = None"
  by (simp add: world_simps file_names run_simps numero_001_def numero_002_def)

text \<open>The two records of the example are one batch.\<close>

lemma batched_fanout_partition_example:
  "files numeros_world NUMEROS_FILE = Parsed (JArr [numero_001, numero_002]) \<and>
   fst (migrate_numeros numeros_world (initial_state numeros_world)) = None \<and>
   length (batches (new_events (initial_state numeros_world)
      (snd (migrate_numeros numeros_world (initial_state numeros_world))))) = 1 \<and>
   concat (batches (new_events (initial_state numeros_world)
      (snd (migrate_numeros numeros_world (initial_state numeros_world))))) = [numero_001, numero_002]"
proof -
  have f: "files numeros_world NUMEROS_FILE = Parsed (JArr [numero_001, numero_002])"
    by (simp add: world_simps)
  have r: "migrate_numeros numeros_world (initial_state numeros_world) =
      (None, snd (migrate_numeros numeros_world (initial_state numeros_world)))"
    using numeros_world_run by (metis prod.collapse)
  from batched_fanout_partition[OF disjI1[OF refl] f r] f numeros_world_run
  show ?thesis by simp
qed



lemma can_stage_numero_Inr:
  "can_stage_numero w x \<Longrightarrow> always_stages stage_numero w x"
  by (auto simp: always_stages_def can_stage_numero_def stage_numero_def document_def
        split: sum.splits)

lemma can_stage_venta_Inr:
  "can_stage_venta w x \<Longrightarrow> always_stages stage_venta w x"
  by (auto simp: always_stages_def can_stage_venta_def stage_venta_def document_def)

lemma stage_segment_completes:
  "\<forall>x \<in> set items. always_stages stg w x \<Longrightarrow>
   \<exists>b s1. stage_segment stg w items batch s = (Inr b, s1)"
proof (induction items arbitrary: batch s)
  case Nil
  show ?case by simp
next
  case (Cons x items)
  from Cons.prems have "always_stages stg w x" by simp
  then obtain wr s0 where st: "stg w x s = (Inr wr, s0)"
    unfolding always_stages_def by blast
  from Cons.prems have "\<forall>x \<in> set items. always_stages stg w x" by simp
  from Cons.IH[OF this, of "batch @ [wr]" s0] st show ?case by simp
qed

lemma batch_loop_completes:
  "\<forall>x \<in> set xs. always_stages stg w x \<Longrightarrow> data = JArr xs \<Longrightarrow>
   fst (batch_loop stg c w data n i s) = None"
proof (induction stg c w data n i s rule: batch_loop.induct)
  case (1 stg c w data n i s)
  note ok = "1.prems"(1)
  note dat = "1.prems"(2)
  show ?case
  proof (cases "i < n")
    case False
    then show ?thesis by (simp add: batch_loop.simps[of stg c w data n i s])
  next
    case True
    define items where "items = drop i (take (i + batch_size) xs)"
    have sl: "py_slice data i (i + batch_size) = Inr (JArr items)"
      using dat by (simp add: items_def)
    have "\<forall>x \<in> set items. always_stages stg w x"
      using ok set_drop_subset[of i "take (i + batch_size) xs"] set_take_subset[of "i + batch_size" xs]
      unfolding items_def by blast
    from stage_segment_completes[OF this, of "[]" s]
    obtain batch s1 where seg: "stage_segment stg w items [] s = (Inr batch, s1)" by blast
    obtain rc s2 where cm: "commit w batch s1 = (rc, s2)" by (cases "commit w batch s1")
    show ?thesis
    proof (cases rc)
      case None
      from "1.IH"(1)[OF True sl _ seg[symmetric] _ cm[unfolded None, symmetric] _ ok dat]
      show ?thesis using True sl seg cm None
        by (simp add: batch_loop.simps[of stg c w data n i s])
    next
      case (Some e)
      from "1.IH"(2)[OF True sl _ seg[symmetric] _ cm[unfolded Some, symmetric] _ ok dat]
      show ?thesis using True sl seg cm Some
        by (simp add: batch_loop.simps[of stg c w data n i s])
    qed
  qed
qed

lemma migrate_batched_completes:
  assumes "\<forall>x \<in> set xs. always_stages stg w x"
    and "files w f = Parsed (JArr xs)"
  shows "fst (migrate_batched stg f c w s) = None"
proof -
  have "fst (batch_loop stg c w (JArr xs) (length xs) 0 (emit (Load f) s)) = None"
    using batch_loop_completes[OF assms(1) refl] .
  then show ?thesis
    using assms(2)
    by (auto simp: migrate_batched_def load_json_Parsed split: prod.splits option.splits)
qed

text \<open>
  Records that can all be staged. For the numbers and the sales fixture, a list of such
  records: whatever the destination answers to each commit, the loop runs to its end,
  every batch of the fixture is built and submitted (the batches are the whole list, in
  ceil(N/500) submissions), and every rejected commit is followed at once by the text
  that reports it.
\<close>

lemma rejected_batch_does_not_stop_loop:
  assumes "(step, filepath, c, can_stage) =
              (migrate_numeros w, NUMEROS_FILE, ''numeros'', can_stage_numero w) \<or>
           (step, filepath, c, can_stage) =
              (migrate_ventas w, VENTAS_FILE, ''ventas'', can_stage_venta w)"
    and "files w filepath = Parsed (JArr xs)"
    and "list_all can_stage xs"
  shows "fst (step s) = None \<and>
         rejections_reported c (new_events s (snd (step s))) \<and>
         concat (batches (new_events s (snd (step s)))) = xs \<and>
         length (batches (new_events s (snd (step s)))) = (length xs + 499) div 500"
proof -
  from assms(1,3) obtain stg where stg: "staging stg c"
    and step: "step = migrate_batched stg filepath c w"
    and ok: "\<forall>x \<in> set xs. always_stages stg w x"
    using staging_numero staging_venta can_stage_numero_Inr can_stage_venta_Inr
    by (auto simp: migrate_numeros_def migrate_ventas_def list_all_iff)
  have fin: "fst (step s) = None"
    unfolding step by (rule migrate_batched_completes[OF ok assms(2)])
  then have run: "migrate_batched stg filepath c w s = (None, snd (step s))"
    unfolding step by (metis prod.collapse)
  from migrate_batched_arr[OF stg assms(2) run]
  obtain evs where "trace (snd (step s)) = trace s @ evs" "rejections_reported c evs"
    "concat (batches evs) = xs" "length (batches evs) = (length xs + 499) div 500"
    by blast
  with fin show ?thesis
    by (simp add: new_events_append)
qed

text \<open>A sales fixture of 501 records on a destination that rejects every request: two batches.\<close>

lemma rejected_batch_does_not_stop_loop_example:
  "files rejecting_world VENTAS_FILE = Parsed (JArr (replicate 501 venta_1)) \<and>
   list_all (can_stage_venta rejecting_world) (replicate 501 venta_1) \<and>
   network rejecting_world 0 = Some (OtherError ''unavailable'') \<and>
   fst (migrate_ventas rejecting_world (initial_state rejecting_world)) = None \<and>
   rejections_reported ''ventas'' (new_events (initial_state rejecting_world)
      (snd (migrate_ventas rejecting_world (initial_state rejecting_world)))) \<and>
   length (batches (new_events (initial_state rejecting_world)
      (snd (migrate_ventas rejecting_world (initial_state rejecting_world))))) = 2"
proof -
  have f: "files rejecting_world VENTAS_FILE = Parsed (JArr (replicate 501 venta_1))"
    by (simp add: rejecting_world_def with_file_def)
  have c: "list_all (can_stage_venta rejecting_world) (replicate 501 venta_1)"
    by (simp add: list_all_iff can_stage_venta_def rejecting_world_def with_file_def quiet_world_def)
  have n: "network rejecting_world 0 = Some (OtherError ''unavailable'')"
    by (simp add: rejecting_world_def)
  from rejected_batch_does_not_stop_loop[OF disjI2[OF refl] f c, of "initial_state rejecting_world"] f c n
  show ?thesis by simp
qed

subsection \<open>A record that cannot be staged, in the batching loop\<close>

text \<open>
  A fixture of 501 elements whose first 500 can be staged and whose last cannot: the
  first batch is submitted, its outcome is printed, and the exception of the last
  element ends the step before a second batch is submitted.
\<close>

lemma batch_loop_halts_in_second_batch:
  assumes stg: "staging stg c"
    and good: "\<forall>x \<in> set good. always_stages stg w x"
    and len: "length good = 500"
    and bad: "\<forall>s. fst (stg w bad s) = Inl e"
  shows "\<exists>b s'. batch_loop stg c w (JArr (good @ [bad])) 501 0 s = (Some e, s') \<and> map snd b = good \<and>
        trace s' = trace s @ [Commit b (network w (requests s)),
            Print (case network w (requests s) of None \<Rightarrow> BatchCommitted c 500
                   | Some e' \<Rightarrow> BatchError c e')]"
proof -
  let ?data = "JArr (good @ [bad])"
  have sl1: "py_slice ?data 0 (0 + batch_size) = Inr (JArr good)"
    by (simp add: len batch_size_def)
  from stage_segment_completes[OF good, of "[]" s]
  obtain b s1 where seg: "stage_segment stg w good [] s = (Inr b, s1)" by blast
  have f1: "trace s1 = trace s" "requests s1 = requests s"
    using stage_segment_fields[OF stg seg] by simp_all
  have content: "map snd b = good"
    using stage_segment_Inr[OF stg seg] by simp
  obtain rc s2 where cm: "commit w b s1 = (rc, s2)" by (cases "commit w b s1")
  have rc: "rc = network w (requests s)" and t2: "trace s2 = trace s @ [Commit b rc]"
    using commit_fields[OF cm] f1 by simp_all
  define p where "p = Print (case rc of None \<Rightarrow> BatchCommitted c 500 | Some e' \<Rightarrow> BatchError c e')"
  let ?s3 = "emit p s2"
  have step1: "batch_loop stg c w ?data 501 0 s = batch_loop stg c w ?data 501 500 ?s3"
    using sl1 seg cm
    by (simp add: batch_loop.simps[of stg c w ?data 501 0 s] p_def batch_size_def
          split: option.splits)
  have sl2: "py_slice ?data 500 (500 + batch_size) = Inr (JArr [bad])"
    by (simp add: len batch_size_def)
  obtain rb s4 where st: "stg w bad ?s3 = (rb, s4)" by (cases "stg w bad ?s3")
  with bad have rb: "rb = Inl e" by (metis fst_conv)
  have t4: "trace s4 = trace ?s3"
    using stg st unfolding staging_def by blast
  have step2: "batch_loop stg c w ?data 501 500 ?s3 = (Some e, s4)"
    using sl2 st rb
    by (simp add: batch_loop.simps[of stg c w ?data 501 500 ?s3])
  have "trace s4 = trace s @ [Commit b rc, p]"
    using t4 t2 by (simp add: trace_emit)
  with step1 step2 content rc show ?thesis
    unfolding p_def by auto
qed

lemma migrate_batched_halts_in_second_batch:
  assumes stg: "staging stg c"
    and good: "\<forall>x \<in> set good. always_stages stg w x"
    and len: "length good = 500"
    and bad: "\<forall>s. fst (stg w bad s) = Inl e"
    and fil: "files w f = Parsed (JArr (good @ [bad]))"
  shows "fst (migrate_batched stg f c w s) = Some e \<and>
         batches (new_events s (snd (migrate_batched stg f c w s))) = [good] \<and>
         concat (map printed (new_events s (snd (migrate_batched stg f c w s)))) =
           [case network w (requests s) of None \<Rightarrow> BatchCommitted c 500
            | Some e' \<Rightarrow> BatchError c e']"
proof -
  let ?s1 = "emit (Load f) s"
  from batch_loop_halts_in_second_batch[OF stg good len bad, of ?s1]
  obtain b s' where run: "batch_loop stg c w (JArr (good @ [bad])) 501 0 ?s1 = (Some e, s')"
    and content: "map snd b = good"
    and tr: "trace s' = trace ?s1 @ [Commit b (network w (requests ?s1)),
            Print (case network w (requests ?s1) of None \<Rightarrow> BatchCommitted c 500
                   | Some e' \<Rightarrow> BatchError c e')]"
    by blast
  have m: "migrate_batched stg f c w s = (Some e, s')"
    using fil run len by (simp add: migrate_batched_def load_json_Parsed)
  have "trace s' = trace s @ [Load f, Commit b (network w (requests s)),
            Print (case network w (requests s) of None \<Rightarrow> BatchCommitted c 500
                   | Some e' \<Rightarrow> BatchError c e')]"
    using tr by (simp add: trace_emit emit_fields)
  then have "new_events s s' = [Load f, Commit b (network w (requests s)),
            Print (case network w (requests s) of None \<Rightarrow> BatchCommitted c 500
                   | Some e' \<Rightarrow> BatchError c e')]"
    by (rule new_events_append)
  with m content show ?thesis by simp
qed

lemma numero_record_stages:
  "document_raises w = (\<lambda>v. None) \<Longrightarrow> batch_set_raises w = (\<lambda>data. None) \<Longrightarrow>
   \<forall>x \<in> set (map numero_record [0..<500]). always_stages stage_numero w x"
  by (auto intro!: can_stage_numero_Inr simp: can_stage_numero_def numero_record_def)

lemma venta_record_stages:
  "\<forall>x \<in> set (map venta_record [0..<500]). always_stages stage_venta refused_sale_world x"
  by (auto intro!: can_stage_venta_Inr
        simp: can_stage_venta_def venta_record_def refused_sale_world_def)

lemma keyless_never_stages:
  "\<forall>s. fst (stage_numero w (JObj [(''id'', v)]) s) = Inl (KeyError ''numero'')"
  by (simp add: stage_numero_def)

lemma number_never_stages:
  "\<forall>s. fst (stage_venta refused_sale_world (JInt 7) s) = Inl (OtherError ''AttributeError'')"
  by (simp add: stage_venta_def document_def refused_sale_world_def)

text \<open>
  Claim C1 does not hold of the code. A numbers fixture of two records, the second
  without the field "numero": line 94 raises \<^verbatim>\<open>KeyError\<close> while the batch is
  staged, outside every \<^verbatim>\<open>try\<close>, and no batch is submitted where ceil(2/500) is
  one; the first record, which is in order, is in no batch. A sales fixture of 501
  elements whose last the library refuses at line 152: one batch is submitted where
  ceil(501/500) is two.
\<close>

theorem unstaged_record_loses_batches:
  "files half_keyless_world NUMEROS_FILE = Parsed (JArr [numero_001, JObj [(''id'', JInt 2)]]) \<and>
   fst (migrate_numeros half_keyless_world (initial_state half_keyless_world)) =
     Some (KeyError ''numero'') \<and>
   batches (new_events (initial_state half_keyless_world)
     (snd (migrate_numeros half_keyless_world (initial_state half_keyless_world)))) = [] \<and>
   files refused_sale_world VENTAS_FILE = Parsed (JArr (map venta_record [0..<500] @ [JInt 7])) \<and>
   fst (migrate_ventas refused_sale_world (initial_state refused_sale_world)) =
     Some (OtherError ''AttributeError'') \<and>
   batches (new_events (initial_state refused_sale_world)
     (snd (migrate_ventas refused_sale_world (initial_state refused_sale_world)))) =
     [map venta_record [0..<500]]"
proof -
  have n: "files half_keyless_world NUMEROS_FILE = Parsed (JArr [numero_001, JObj [(''id'', JInt 2)]]) \<and>
     fst (migrate_numeros half_keyless_world (initial_state half_keyless_world)) =
       Some (KeyError ''numero'') \<and>
     batches (new_events (initial_state half_keyless_world)
       (snd (migrate_numeros half_keyless_world (initial_state half_keyless_world)))) = []"
    by (simp add: half_keyless_world_def world_simps file_names run_simps new_events_def
          numero_001_def)
  have f: "files refused_sale_world VENTAS_FILE = Parsed (JArr (map venta_record [0..<500] @ [JInt 7]))"
    by (simp add: refused_sale_world_def with_file_def)
  have len: "length (map venta_record [0..<500]) = 500" by simp
  from migrate_batched_halts_in_second_batch[OF staging_venta venta_record_stages len
      number_never_stages f, of "initial_state refused_sale_world"]
  have "fst (migrate_ventas refused_sale_world (initial_state refused_sale_world)) =
     Some (OtherError ''AttributeError'') \<and>
   batches (new_events (initial_state refused_sale_world)
     (snd (migrate_ventas refused_sale_world (initial_state refused_sale_world)))) =
     [map venta_record [0..<500]]"
    by (simp add: migrate_ventas_def)
  with n f show ?thesis by simp
qed

text \<open>
  Claim C4 does not hold of the code. A numbers fixture of 501 records, the last
  without the field "numero", on a destination that rejects every request: the first
  batch is rejected and reported, and then line 94 raises \<^verbatim>\<open>KeyError\<close> outside
  every \<^verbatim>\<open>try\<close>: the batch after the rejected one is never built nor submitted.
\<close>

theorem keyless_record_after_rejected_batch:
  "files late_keyless_world NUMEROS_FILE =
     Parsed (JArr (map numero_record [0..<500] @ [JObj [(''id'', JInt 501)]])) \<and>
   network late_keyless_world 0 = Some (OtherError ''unavailable'') \<and>
   fst (migrate_numeros late_keyless_world (initial_state late_keyless_world)) =
     Some (KeyError ''numero'') \<and>
   batches (new_events (initial_state late_keyless_world)
     (snd (migrate_numeros late_keyless_world (initial_state late_keyless_world)))) =
     [map numero_record [0..<500]] \<and>
   concat (map printed (new_events (initial_state late_keyless_world)
     (snd (migrate_numeros late_keyless_world (initial_state late_keyless_world))))) =
     [BatchError ''numeros'' (OtherError ''unavailable'')]"
proof -
  have f: "files late_keyless_world NUMEROS_FILE =
     Parsed (JArr (map numero_record [0..<500] @ [JObj [(''id'', JInt 501)]]))"
    by (simp add: late_keyless_world_def with_file_def)
  have n: "network late_keyless_world 0 = Some (OtherError ''unavailable'')"
    by (simp add: late_keyless_world_def)
  have r: "requests (initial_state late_keyless_world) = 0"
    by (simp add: initial_state_def)
  have good: "\<forall>x \<in> set (map numero_record [0..<500]). always_stages stage_numero late_keyless_world x"
    by (rule numero_record_stages)
       (simp_all add: late_keyless_world_def with_file_def quiet_world_def)
  have len: "length (map numero_record [0..<500]) = 500" by simp
  from migrate_batched_halts_in_second_batch[OF staging_numero good len
      keyless_never_stages f, of "initial_state late_keyless_world"] f n r
  show ?thesis by (simp add: migrate_numeros_def)
qed

subsection \<open>The unbatched fixtures\<close>


lemma add_fields:
  "add w c x s = (r, s1) \<Longrightarrow> trace s1 = trace s @ [Add c x r] \<and> r = network w (requests s)"
  by (auto simp: add_def Let_def)

lemma add_each_trace:
  "\<exists>evs. trace (add_each c w xs s) = trace s @ evs \<and> attempts evs = map (Pair c) xs \<and>
     failures_reported evs"
proof (induction xs arbitrary: s)
  case Nil
  show ?case by simp
next
  case (Cons x xs)
  obtain r s1 where a: "add w c x s = (r, s1)" by (cases "add w c x s")
  then have t1: "trace s1 = trace s @ [Add c x r]" using add_fields by blast
  show ?case
  proof (cases r)
    case None
    from Cons.IH[of s1] obtain evs where evs: "trace (add_each c w xs s1) = trace s1 @ evs"
      "attempts evs = map (Pair c) xs" "failures_reported evs" by blast
    have "trace (add_each c w (x # xs) s) = trace s @ (Add c x None # evs)"
      using a None evs(1) t1 by simp
    moreover have "attempts (Add c x None # evs) = map (Pair c) (x # xs)"
      using evs(2) by simp
    moreover have "failures_reported (Add c x None # evs)"
      using evs(3) by simp
    ultimately show ?thesis by blast
  next
    case (Some e)
    let ?s2 = "emit (Print (RecordError c x e)) s1"
    from Cons.IH[of ?s2] obtain evs where evs: "trace (add_each c w xs ?s2) = trace ?s2 @ evs"
      "attempts evs = map (Pair c) xs" "failures_reported evs" by blast
    have "trace (add_each c w (x # xs) s) =
        trace s @ (Add c x (Some e) # Print (RecordError c x e) # evs)"
      using a Some evs(1) t1 by (simp add: trace_emit)
    moreover have "attempts (Add c x (Some e) # Print (RecordError c x e) # evs) = map (Pair c) (x # xs)"
      using evs(2) by simp
    moreover have "failures_reported (Add c x (Some e) # Print (RecordError c x e) # evs)"
      using evs(3) by simp
    ultimately show ?thesis by blast
  qed
qed

lemma attempts_append: "attempts (a @ b) = attempts a @ attempts b"
  by (induction a rule: attempts.induct) simp_all

lemma failures_reported_append:
  "failures_reported a \<Longrightarrow> failures_reported b \<Longrightarrow> failures_reported (a @ b)"
  by (induction a rule: failures_reported.induct) (auto split: list.splits)

lemma migrate_unbatched_arr:
  assumes "files w f = Parsed (JArr xs)"
  shows "fst (migrate_unbatched f c w s) = None \<and>
     attempts (new_events s (snd (migrate_unbatched f c w s))) = map (Pair c) xs \<and>
     failures_reported (new_events s (snd (migrate_unbatched f c w s)))"
proof (cases "xs = []")
  case True
  with assms show ?thesis
    by (simp add: migrate_unbatched_def load_json_Parsed new_events_def trace_emit)
next
  case False
  let ?s1 = "emit (Load f) s"
  from add_each_trace[of c w xs ?s1] obtain evs where
    evs: "trace (add_each c w xs ?s1) = trace ?s1 @ evs" "attempts evs = map (Pair c) xs"
      "failures_reported evs" by blast
  have run: "migrate_unbatched f c w s =
      (None, emit (Print (Migrated c (length xs))) (add_each c w xs ?s1))"
    using assms False by (simp add: migrate_unbatched_def load_json_Parsed)
  have "trace (snd (migrate_unbatched f c w s)) =
      trace s @ (Load f # evs @ [Print (Migrated c (length xs))])"
    using run evs(1) by (simp add: trace_emit)
  then have "new_events s (snd (migrate_unbatched f c w s)) =
      Load f # evs @ [Print (Migrated c (length xs))]"
    by (rule new_events_append)
  with run evs(2,3) show ?thesis
    by (simp add: attempts_append failures_reported_append)
qed

text \<open>
  Claim C8. For the winners, the results and the receipts fixture, a list of records:
  whatever the destination answers, the step completes, every record of the list is
  sent once, in order, and each write that fails is followed at once by the text that
  reports it with the content of that record; the records after it are still sent.
\<close>

theorem unbatched_failures_isolated:
  assumes "(step, filepath, c) \<in>
             {(migrate_ganadores w, GANADORES_FILE, ''ganadores''),
              (migrate_resultados_zulia w, RESULTADOS_ZULIA_FILE, ''resultados_zulia''),
              (migrate_comprobantes w, COMPROBANTES_FILE, ''comprobantes'')}"
    and "files w filepath = Parsed (JArr xs)"
  shows "fst (step s) = None \<and>
         attempts (new_events s (snd (step s))) = map (Pair c) xs \<and>
         failures_reported (new_events s (snd (step s)))"
proof -
  from assms(1) have "step = migrate_unbatched filepath c w"
    by (auto simp: migrate_ganadores_def migrate_resultados_zulia_def migrate_comprobantes_def)
  with migrate_unbatched_arr[OF assms(2)] show ?thesis by simp
qed

theorem unbatched_failures_isolated_witness:
  "files ganadores_world GANADORES_FILE = Parsed (JArr [ganador_1, ganador_2]) \<and>
   fst (migrate_ganadores ganadores_world (initial_state ganadores_world)) = None \<and>
   attempts (new_events (initial_state ganadores_world)
      (snd (migrate_ganadores ganadores_world (initial_state ganadores_world))))
     = [(''ganadores'', ganador_1), (''ganadores'', ganador_2)] \<and>
   new_events (initial_state ganadores_world)
      (snd (migrate_ganadores ganadores_world (initial_state ganadores_world)))
     = [Load GANADORES_FILE,
        Add ''ganadores'' ganador_1 (Some (OtherError ''unavailable'')),
        Print (RecordError ''ganadores'' ganador_1 (OtherError ''unavailable'')),
        Add ''ganadores'' ganador_2 None,
        Print (Migrated ''ganadores'' 2)]"
proof -
  have f: "files ganadores_world GANADORES_FILE = Parsed (JArr [ganador_1, ganador_2])"
    by (simp add: ganadores_world_def with_file_def)
  have t: "new_events (initial_state ganadores_world)
      (snd (migrate_ganadores ganadores_world (initial_state ganadores_world)))
     = [Load GANADORES_FILE,
        Add ''ganadores'' ganador_1 (Some (OtherError ''unavailable'')),
        Print (RecordError ''ganadores'' ganador_1 (OtherError ''unavailable'')),
        Add ''ganadores'' ganador_2 None,
        Print (Migrated ''ganadores'' 2)]"
    by (simp add: ganadores_world_def with_file_def quiet_world_def file_names new_events_def
          migrate_ganadores_def migrate_unbatched_def load_json_def emit_def add_def
          initial_state_def Let_def apply_writes_def)
  from unbatched_failures_isolated[of "migrate_ganadores ganadores_world" GANADORES_FILE
      "''ganadores''" ganadores_world "[ganador_1, ganador_2]" "initial_state ganadores_world"] f t
  show ?thesis by simp
qed

subsection \<open>What the destination holds after the numbers fixture\<close>














subsection \<open>What a run may add to the trace\<close>

lemma extends_refl: "extends_within A s s"
  by (simp add: extends_within_def)

lemma extends_trans:
  "extends_within A s s1 \<Longrightarrow> extends_within A s1 s2 \<Longrightarrow> extends_within A s s2"
  by (auto simp: extends_within_def)

lemma extends_emit: "writes_within A e \<Longrightarrow> extends_within A s (emit e s)"
  by (simp add: extends_within_def trace_emit)

lemma extends_emit_after:
  "extends_within A s s1 \<Longrightarrow> writes_within A e \<Longrightarrow> extends_within A s (emit e s1)"
  using extends_trans extends_emit by blast

lemma writes_within_silent [simp]:
  "writes_within A (Print l)" "writes_within A (Load f)"
  by (simp_all add: writes_within_def)

lemma load_json_extends:
  "load_json w f s = (v, s1) \<Longrightarrow> extends_within A s s1 \<and> v = fixture w f"
  by (auto simp: load_json_def fixture_def Let_def extends_emit extends_emit_after
        split: fixture_file.splits)

lemma doc_set_extends:
  "doc_set w wr s = (r, s1) \<Longrightarrow> (fst (fst wr), snd wr) \<in> A \<Longrightarrow> extends_within A s s1"
  by (auto simp: doc_set_def Let_def extends_within_def writes_within_def)

lemma commit_extends:
  "commit w batch s = (r, s1) \<Longrightarrow> (\<lambda>wr. (fst (fst wr), snd wr)) ` set batch \<subseteq> A \<Longrightarrow>
   extends_within A s s1"
  by (auto simp: commit_def Let_def extends_within_def writes_within_def)

lemma add_extends:
  "add w c x s = (r, s1) \<Longrightarrow> (c, x) \<in> A \<Longrightarrow> extends_within A s s1"
  by (auto simp: add_def Let_def extends_within_def writes_within_def)

lemma add_each_extends:
  "Pair c ` set xs \<subseteq> A \<Longrightarrow> extends_within A s (add_each c w xs s)"
proof (induction xs arbitrary: s)
  case Nil
  show ?case by (simp add: extends_refl)
next
  case (Cons x xs)
  obtain r s1 where a: "add w c x s = (r, s1)" by (cases "add w c x s")
  from Cons.prems have x: "(c, x) \<in> A" and xs: "Pair c ` set xs \<subseteq> A" by auto
  have e1: "extends_within A s s1" using add_extends[OF a x] .
  show ?case
  proof (cases r)
    case None
    with a e1 Cons.IH[OF xs, of s1] show ?thesis by (auto intro: extends_trans)
  next
    case (Some e)
    have "extends_within A s (emit (Print (RecordError c x e)) s1)"
      using e1 by (rule extends_emit_after) simp
    with a Some Cons.IH[OF xs, of "emit (Print (RecordError c x e)) s1"] show ?thesis
      by (auto intro: extends_trans)
  qed
qed

lemma slice_elements:
  "py_slice data i j = Inr seg \<Longrightarrow> py_iter seg = Inr items \<Longrightarrow> set items \<subseteq> set (elements data)"
proof (cases data)
  case (JArr xs)
  assume "py_slice data i j = Inr seg" "py_iter seg = Inr items"
  with JArr have "items = drop i (take j xs)" by auto
  then show ?thesis
    using JArr set_drop_subset[of i "take j xs"] set_take_subset[of j xs]
    by (auto simp: elements_def)
next
  case (JStr str)
  assume "py_slice data i j = Inr seg" "py_iter seg = Inr items"
  with JStr have "items = map (\<lambda>c. JStr [c]) (drop i (take j str))" by auto
  then show ?thesis
    using JStr set_drop_subset[of i "take j str"] set_take_subset[of j str]
    by (auto simp: elements_def)
qed auto

lemma stage_segment_written:
  assumes "staging stg c"
  shows "stage_segment stg w items batch s = (Inr b, s1) \<Longrightarrow>
     map (\<lambda>wr. (fst (fst wr), snd wr)) b =
       map (\<lambda>wr. (fst (fst wr), snd wr)) batch @ map (Pair c) items"
proof (induction items arbitrary: batch s)
  case Nil
  then show ?case by simp
next
  case (Cons x items)
  from Cons.prems obtain wr s0 where st: "stg w x s = (Inr wr, s0)"
    and rest: "stage_segment stg w items (batch @ [wr]) s0 = (Inr b, s1)"
    by (auto split: prod.splits sum.splits)
  from assms st have "snd wr = x" "fst (fst wr) = c"
    unfolding staging_def by blast+
  with Cons.IH[OF rest] show ?case by simp
qed

lemma batch_loop_extends:
  "staging stg c \<Longrightarrow> Pair c ` set (elements data) \<subseteq> A \<Longrightarrow>
   batch_loop stg c w data n i s = (r, s') \<Longrightarrow> extends_within A s s'"
proof (induction stg c w data n i s arbitrary: r s' rule: batch_loop.induct)
  case (1 stg c w data n i s)
  note stg = "1.prems"(1)
  note sub = "1.prems"(2)
  note run = "1.prems"(3)
  show ?case
  proof (cases "i < n")
    case False
    with run have "s' = s" by (simp add: batch_loop.simps[of stg c w data n i s])
    then show ?thesis by (simp add: extends_refl)
  next
    case True
    show ?thesis
    proof (cases "py_slice data i (i + batch_size)")
      case (Inl e)
      with True run have "s' = s" by (simp add: batch_loop.simps[of stg c w data n i s])
      then show ?thesis by (simp add: extends_refl)
    next
      case sl: (Inr segment)
      show ?thesis
      proof (cases "py_iter segment")
        case (Inl e)
        with True sl run have "s' = s" by (simp add: batch_loop.simps[of stg c w data n i s])
        then show ?thesis by (simp add: extends_refl)
      next
        case it: (Inr items)
        have items: "set items \<subseteq> set (elements data)" using slice_elements[OF sl it] .
        obtain rb s1 where seg: "stage_segment stg w items [] s = (rb, s1)"
          by (cases "stage_segment stg w items [] s")
        have t1: "trace s1 = trace s" using stage_segment_fields[OF stg seg] by simp
        show ?thesis
        proof (cases rb)
          case (Inl e)
          with True sl it seg run have "s' = s1"
            by (simp add: batch_loop.simps[of stg c w data n i s])
          with t1 show ?thesis by (simp add: extends_within_def)
        next
          case (Inr batch)
          have "map (\<lambda>wr. (fst (fst wr), snd wr)) batch = map (Pair c) items"
            using stage_segment_written[OF stg seg[unfolded Inr]] by simp
          then have "(\<lambda>wr. (fst (fst wr), snd wr)) ` set batch = Pair c ` set items"
            by (metis list.set_map)
          with items sub have inA: "(\<lambda>wr. (fst (fst wr), snd wr)) ` set batch \<subseteq> A" by auto
          obtain rc s2 where cm: "commit w batch s1 = (rc, s2)" by (cases "commit w batch s1")
          have "extends_within A s1 s2" using commit_extends[OF cm inA] .
          with t1 have e2: "extends_within A s s2" by (simp add: extends_within_def)
          show ?thesis
          proof (cases rc)
            case None
            let ?s3 = "emit (Print (BatchCommitted c (min (i + batch_size) n))) s2"
            have rec: "batch_loop stg c w data n (i + batch_size) ?s3 = (r, s')"
              using True sl it seg Inr cm None run
              by (simp add: batch_loop.simps[of stg c w data n i s])
            have "extends_within A ?s3 s'"
              using "1.IH"(1)[OF True sl it seg[unfolded Inr, symmetric] _ cm[unfolded None, symmetric] _ stg sub rec]
              by simp
            moreover have "extends_within A s ?s3" using e2 by (rule extends_emit_after) simp
            ultimately show ?thesis by (blast intro: extends_trans)
          next
            case (Some e)
            let ?s3 = "emit (Print (BatchError c e)) s2"
            have rec: "batch_loop stg c w data n (i + batch_size) ?s3 = (r, s')"
              using True sl it seg Inr cm Some run
              by (simp add: batch_loop.simps[of stg c w data n i s])
            have "extends_within A ?s3 s'"
              using "1.IH"(2)[OF True sl it seg[unfolded Inr, symmetric] _ cm[unfolded Some, symmetric] _ stg sub rec]
              by simp
            moreover have "extends_within A s ?s3" using e2 by (rule extends_emit_after) simp
            ultimately show ?thesis by (blast intro: extends_trans)
          qed
        qed
      qed
    qed
  qed
qed



lemma verbatim_members:
  "truthy (fixture w CONFIGURACION_FILE) \<Longrightarrow>
     (''configuracion'', fixture w CONFIGURACION_FILE) \<in> set (verbatim_writes w)"
  "truthy (fixture w HORARIOS_ZULIA_FILE) \<Longrightarrow>
     (''horarios_zulia'', JObj [(''horarios'', fixture w HORARIOS_ZULIA_FILE)]) \<in> set (verbatim_writes w)"
  "truthy (fixture w PREMIOS_FILE) \<Longrightarrow>
     (''premios'', fixture w PREMIOS_FILE) \<in> set (verbatim_writes w)"
  "Pair ''numeros'' ` set (elements (fixture w NUMEROS_FILE)) \<subseteq> set (verbatim_writes w)"
  "Pair ''ventas'' ` set (elements (fixture w VENTAS_FILE)) \<subseteq> set (verbatim_writes w)"
  "Pair ''ganadores'' ` set (elements (fixture w GANADORES_FILE)) \<subseteq> set (verbatim_writes w)"
  "Pair ''resultados_zulia'' ` set (elements (fixture w RESULTADOS_ZULIA_FILE)) \<subseteq> set (verbatim_writes w)"
  "Pair ''comprobantes'' ` set (elements (fixture w COMPROBANTES_FILE)) \<subseteq> set (verbatim_writes w)"
  unfolding verbatim_writes_def whole_document_def set_append set_map
  by (simp_all only: if_True list.set) blast+

lemma migrate_configuracion_extends:
  "migrate_configuracion w s = (r, s') \<Longrightarrow> extends_within (set (verbatim_writes w)) s s'"
proof -
  assume run: "migrate_configuracion w s = (r, s')"
  obtain v s1 where ld: "load_json w CONFIGURACION_FILE s = (v, s1)"
    by (cases "load_json w CONFIGURACION_FILE s")
  from load_json_extends[OF ld] have e1: "extends_within (set (verbatim_writes w)) s s1"
    and v: "v = fixture w CONFIGURACION_FILE" by blast+
  show ?thesis
  proof (cases "truthy v")
    case False
    with run ld e1 show ?thesis by (simp add: migrate_configuracion_def)
  next
    case True
    obtain rd s2 where ds: "doc_set w ((''configuracion'', Named (JStr ''general'')), v) s1 = (rd, s2)"
      by (cases "doc_set w ((''configuracion'', Named (JStr ''general'')), v) s1")
    have "extends_within (set (verbatim_writes w)) s1 s2"
      using doc_set_extends[OF ds] verbatim_members(1)[of w] v True by simp
    with e1 have e2: "extends_within (set (verbatim_writes w)) s s2" by (rule extends_trans)
    from run ld True ds have "\<exists>l. s' = emit (Print l) s2"
      by (auto simp: migrate_configuracion_def split: option.splits)
    with e2 show ?thesis by (auto intro: extends_emit_after)
  qed
qed

lemma migrate_premios_extends:
  "migrate_premios w s = (r, s') \<Longrightarrow> extends_within (set (verbatim_writes w)) s s'"
proof -
  assume run: "migrate_premios w s = (r, s')"
  obtain v s1 where ld: "load_json w PREMIOS_FILE s = (v, s1)"
    by (cases "load_json w PREMIOS_FILE s")
  from load_json_extends[OF ld] have e1: "extends_within (set (verbatim_writes w)) s s1"
    and v: "v = fixture w PREMIOS_FILE" by blast+
  show ?thesis
  proof (cases "truthy v")
    case False
    with run ld e1 show ?thesis by (simp add: migrate_premios_def)
  next
    case True
    obtain rd s2 where ds: "doc_set w ((''premios'', Named (JStr ''general'')), v) s1 = (rd, s2)"
      by (cases "doc_set w ((''premios'', Named (JStr ''general'')), v) s1")
    have "extends_within (set (verbatim_writes w)) s1 s2"
      using doc_set_extends[OF ds] verbatim_members(3)[of w] v True by simp
    with e1 have e2: "extends_within (set (verbatim_writes w)) s s2" by (rule extends_trans)
    from run ld True ds have "\<exists>l. s' = emit (Print l) s2"
      by (auto simp: migrate_premios_def split: option.splits)
    with e2 show ?thesis by (auto intro: extends_emit_after)
  qed
qed

lemma migrate_horarios_zulia_extends:
  "migrate_horarios_zulia w s = (r, s') \<Longrightarrow> extends_within (set (verbatim_writes w)) s s'"
proof -
  assume run: "migrate_horarios_zulia w s = (r, s')"
  obtain v s1 where ld: "load_json w HORARIOS_ZULIA_FILE s = (v, s1)"
    by (cases "load_json w HORARIOS_ZULIA_FILE s")
  from load_json_extends[OF ld] have e1: "extends_within (set (verbatim_writes w)) s s1"
    and v: "v = fixture w HORARIOS_ZULIA_FILE" by blast+
  show ?thesis
  proof (cases "truthy v")
    case False
    with run ld e1 show ?thesis by (simp add: migrate_horarios_zulia_def)
  next
    case True
    obtain rd s2 where ds: "doc_set w ((''horarios_zulia'', Named (JStr ''horarios_principales'')),
        JObj [(''horarios'', v)]) s1 = (rd, s2)"
      by (cases "doc_set w ((''horarios_zulia'', Named (JStr ''horarios_principales'')),
        JObj [(''horarios'', v)]) s1")
    have "extends_within (set (verbatim_writes w)) s1 s2"
      using doc_set_extends[OF ds] verbatim_members(2)[of w] v True by simp
    with e1 have e2: "extends_within (set (verbatim_writes w)) s s2" by (rule extends_trans)
    from run ld True ds have "\<exists>l. s' = emit (Print l) s2"
      by (auto simp: migrate_horarios_zulia_def split: option.splits sum.splits)
    with e2 show ?thesis by (auto intro: extends_emit_after)
  qed
qed

lemma migrate_batched_extends:
  assumes stg: "staging stg c"
    and sub: "Pair c ` set (elements (fixture w f)) \<subseteq> A"
    and run: "migrate_batched stg f c w s = (r, s')"
  shows "extends_within A s s'"
proof -
  obtain v s1 where ld: "load_json w f s = (v, s1)" by (cases "load_json w f s")
  from load_json_extends[OF ld] have e1: "extends_within A s s1" and v: "v = fixture w f"
    by blast+
  show ?thesis
  proof (cases "truthy v")
    case False
    with run ld e1 show ?thesis by (simp add: migrate_batched_def)
  next
    case True
    show ?thesis
    proof (cases "py_len v")
      case (Inl e)
      with run ld True e1 show ?thesis by (simp add: migrate_batched_def)
    next
      case (Inr n)
      obtain r2 s2 where loop: "batch_loop stg c w v n 0 s1 = (r2, s2)"
        by (cases "batch_loop stg c w v n 0 s1")
      have "extends_within A s1 s2"
        using batch_loop_extends[OF stg _ loop] sub v by simp
      with e1 have e2: "extends_within A s s2" by (rule extends_trans)
      from run ld True Inr loop have "s' = s2 \<or> (\<exists>l. s' = emit (Print l) s2)"
        by (auto simp: migrate_batched_def split: option.splits)
      with e2 show ?thesis by (auto intro: extends_emit_after)
    qed
  qed
qed

lemma migrate_unbatched_extends:
  assumes sub: "Pair c ` set (elements (fixture w f)) \<subseteq> A"
    and run: "migrate_unbatched f c w s = (r, s')"
  shows "extends_within A s s'"
proof -
  obtain v s1 where ld: "load_json w f s = (v, s1)" by (cases "load_json w f s")
  from load_json_extends[OF ld] have e1: "extends_within A s s1" and v: "v = fixture w f"
    by blast+
  show ?thesis
  proof (cases "truthy v")
    case False
    with run ld e1 show ?thesis by (simp add: migrate_unbatched_def)
  next
    case True
    show ?thesis
    proof (cases "py_iter v")
      case (Inl e)
      with run ld True e1 show ?thesis by (simp add: migrate_unbatched_def)
    next
      case (Inr records)
      then have "records = elements v" by (simp add: elements_def)
      with sub v have "Pair c ` set records \<subseteq> A" by simp
      from add_each_extends[OF this, of s1 w] e1
      have e2: "extends_within A s (add_each c w records s1)" by (blast intro: extends_trans)
      from run ld True Inr have "s' = add_each c w records s1 \<or>
          (\<exists>l. s' = emit (Print l) (add_each c w records s1))"
        by (auto simp: migrate_unbatched_def Let_def split: sum.splits)
      with e2 show ?thesis by (auto intro: extends_emit_after)
    qed
  qed
qed

lemma fixture_steps_extend:
  assumes "(f, st) \<in> set (fixture_steps w)" and "st s = (r, s')"
  shows "extends_within (set (verbatim_writes w)) s s'"
proof -
  from assms(1) consider
      "st = migrate_configuracion w" | "st = migrate_numeros w" | "st = migrate_horarios_zulia w"
    | "st = migrate_ganadores w" | "st = migrate_premios w" | "st = migrate_ventas w"
    | "st = migrate_resultados_zulia w" | "st = migrate_comprobantes w"
    by (auto simp: fixture_steps_def)
  then show ?thesis
  proof cases
    case 1 with assms(2) show ?thesis by (simp add: migrate_configuracion_extends)
  next
    case 2 with assms(2) show ?thesis
      using migrate_batched_extends[OF staging_numero verbatim_members(4)]
      by (simp add: migrate_numeros_def)
  next
    case 3 with assms(2) show ?thesis by (simp add: migrate_horarios_zulia_extends)
  next
    case 4 with assms(2) show ?thesis
      using migrate_unbatched_extends[OF verbatim_members(6)]
      by (simp add: migrate_ganadores_def)
  next
    case 5 with assms(2) show ?thesis by (simp add: migrate_premios_extends)
  next
    case 6 with assms(2) show ?thesis
      using migrate_batched_extends[OF staging_venta verbatim_members(5)]
      by (simp add: migrate_ventas_def)
  next
    case 7 with assms(2) show ?thesis
      using migrate_unbatched_extends[OF verbatim_members(7)]
      by (simp add: migrate_resultados_zulia_def)
  next
    case 8 with assms(2) show ?thesis
      using migrate_unbatched_extends[OF verbatim_members(8)]
      by (simp add: migrate_comprobantes_def)
  qed
qed

lemma fixture_steps_within:
  "(f, st) \<in> set (fixture_steps w) \<Longrightarrow> step_within (set (verbatim_writes w)) st"
  unfolding step_within_def using fixture_steps_extend by blast

lemma run_steps_extends:
  "list_all (step_within A) sts \<Longrightarrow> run_steps sts s = (r, s') \<Longrightarrow> extends_within A s s'"
proof (induction sts arbitrary: s)
  case Nil
  then show ?case by (simp add: extends_refl)
next
  case (Cons st sts)
  obtain r1 s1 where st: "st s = (r1, s1)" by (cases "st s")
  from Cons.prems(1) have "step_within A st" and rest: "list_all (step_within A) sts" by simp_all
  with st have e1: "extends_within A s s1" unfolding step_within_def by blast
  show ?case
  proof (cases r1)
    case None
    with st Cons.prems(2) have "run_steps sts s1 = (r, s')" by simp
    from Cons.IH[OF rest this] e1 show ?thesis by (blast intro: extends_trans)
  next
    case (Some e)
    with st Cons.prems(2) have "s' = s1" by simp
    with e1 show ?thesis by simp
  qed
qed

lemma first_step_within: "step_within A (\<lambda>s. (None, emit (Print Starting) s))"
  unfolding step_within_def by (auto intro: extends_emit)

lemma last_step_within:
  "step_within A (\<lambda>s. (None,
     emit (Print ReminderEnv) (emit (Print ReminderBackend) (emit (Print Completed) s))))"
  unfolding step_within_def by (auto intro!: extends_emit_after extends_emit)

lemma migrate_data_extends:
  "migrate_data w s = (r, s') \<Longrightarrow> extends_within (set (verbatim_writes w)) s s'"
proof -
  let ?A = "set (verbatim_writes w)"
  assume run: "migrate_data w s = (r, s')"
  have "list_all (step_within ?A) (map snd (fixture_steps w))"
    unfolding list_all_iff using fixture_steps_within by fastforce
  then have "list_all (step_within ?A)
     ([\<lambda>s. (None, emit (Print Starting) s)] @ map snd (fixture_steps w) @
        [\<lambda>s. (None, emit (Print ReminderEnv) (emit (Print ReminderBackend) (emit (Print Completed) s)))])"
    using first_step_within[of ?A] last_step_within[of ?A] by simp
  from run_steps_extends[OF this run[unfolded migrate_data_def]] show ?thesis .
qed


subsection \<open>The whole run\<close>


lemma written_within:
  "list_all (writes_within A) evs \<Longrightarrow> set (concat (map written evs)) \<subseteq> A"
  by (induction evs) (auto simp: writes_within_def)

lemma credentials_append: "credentials (a @ b) = credentials a @ credentials b"
  by (induction a rule: credentials.induct) simp_all

lemma credentials_within:
  "list_all (writes_within A) evs \<Longrightarrow> credentials evs = []"
proof (induction evs)
  case Nil
  show ?case by simp
next
  case (Cons e evs)
  then have "credentials [e] = []" "credentials evs = []" by (simp_all add: writes_within_def)
  moreover have "credentials (e # evs) = credentials [e] @ credentials evs"
    using credentials_append[of "[e]" evs] by simp
  ultimately show ?case by simp
qed

lemma main_trace:
  "\<exists>evs. trace (snd (main w)) = Credential (credential_source w) # evs \<and>
     list_all (writes_within (set (verbatim_writes w))) evs"
proof (cases "initialization_error w")
  case (Some e)
  then have "trace (snd (main w)) = Credential (credential_source w) #
      [Print (InitError e), Print InitHintFile, Print InitHintEnv]"
    by (simp add: main_def Let_def trace_emit initial_state_def)
  then show ?thesis by simp
next
  case None
  let ?s0 = "emit (Print InitOk) (emit (Credential (credential_source w)) (initial_state w))"
  obtain r s1 where run: "migrate_data w ?s0 = (r, s1)" by (cases "migrate_data w ?s0")
  from migrate_data_extends[OF run] obtain evs where
    evs: "trace s1 = trace ?s0 @ evs" "list_all (writes_within (set (verbatim_writes w))) evs"
    unfolding extends_within_def by blast
  have "snd (main w) = s1"
    using None run by (simp add: main_def Let_def split: option.splits)
  then have "trace (snd (main w)) = Credential (credential_source w) # (Print InitOk # evs)"
    using evs(1) by (simp add: trace_emit initial_state_def)
  with evs(2) show ?thesis by simp
qed

lemma main_exits:
  "initialization_error w = Some e \<Longrightarrow>
   main w = (Exited, \<lparr>trace = [Credential (credential_source w), Print (InitError e),
                               Print InitHintFile, Print InitHintEnv],
                      store = database w, next_auto = 0, requests = 0\<rparr>)"
  by (simp add: main_def Let_def emit_def initial_state_def)

text \<open>
  Claim C7. In every run the credential is taken from one source only: the blob of the
  environment variable when the variable holds one, the local credential file only when
  the variable is unset or empty. When the resolution fails (the certificate, the
  initialisation of the application or the client raises), the run prints the error
  and its two hints and exits: no fixture has been loaded and no request has been sent
  to the destination, whose content is what it was.
\<close>

theorem credentials_environment_first:
  "(\<forall>blob. environ_key w = Some blob \<and> blob \<noteq> [] \<longrightarrow>
      credentials (trace (snd (main w))) = [EnvBlob blob]) \<and>
   (environ_key w = None \<or> environ_key w = Some [] \<longrightarrow>
      credentials (trace (snd (main w))) = [LocalFile SERVICE_ACCOUNT_FILE]) \<and>
   (\<forall>e. initialization_error w = Some e \<longrightarrow>
      fst (main w) = Exited \<and>
      trace (snd (main w)) =
        [Credential (credential_source w), Print (InitError e), Print InitHintFile,
         Print InitHintEnv] \<and>
      concat (map written (trace (snd (main w)))) = [] \<and>
      concat (map loaded (trace (snd (main w)))) = [] \<and>
      store (snd (main w)) = database w \<and> requests (snd (main w)) = 0)"
proof -
  from main_trace[of w] obtain evs where
    evs: "trace (snd (main w)) = Credential (credential_source w) # evs"
      "list_all (writes_within (set (verbatim_writes w))) evs" by blast
  have c: "credentials (trace (snd (main w))) = [credential_source w]"
    using evs credentials_within[OF evs(2)] by simp
  have 1: "\<forall>blob. environ_key w = Some blob \<and> blob \<noteq> [] \<longrightarrow>
      credentials (trace (snd (main w))) = [EnvBlob blob]"
    using c by (simp add: credential_source_def)
  have 2: "environ_key w = None \<or> environ_key w = Some [] \<longrightarrow>
      credentials (trace (snd (main w))) = [LocalFile SERVICE_ACCOUNT_FILE]"
    using c by (auto simp: credential_source_def)
  have 3: "\<forall>e. initialization_error w = Some e \<longrightarrow>
      fst (main w) = Exited \<and>
      trace (snd (main w)) =
        [Credential (credential_source w), Print (InitError e), Print InitHintFile,
         Print InitHintEnv] \<and>
      concat (map written (trace (snd (main w)))) = [] \<and>
      concat (map loaded (trace (snd (main w)))) = [] \<and>
      store (snd (main w)) = database w \<and> requests (snd (main w)) = 0"
    by (simp add: main_exits)
  from 1 2 3 show ?thesis by blast
qed

theorem credentials_environment_first_witness:
  "environ_key bad_blob_world = Some ''not a credential'' \<and>
   initialization_error bad_blob_world = Some (OtherError ''invalid certificate'') \<and>
   files bad_blob_world NUMEROS_FILE = Parsed (JArr [numero_001, numero_002]) \<and>
   credentials (trace (snd (main bad_blob_world))) = [EnvBlob ''not a credential''] \<and>
   fst (main bad_blob_world) = Exited \<and>
   concat (map written (trace (snd (main bad_blob_world)))) = [] \<and>
   concat (map loaded (trace (snd (main bad_blob_world)))) = []"
proof -
  have k: "environ_key bad_blob_world = Some ''not a credential''"
    by (simp add: bad_blob_world_def)
  have i: "initialization_error bad_blob_world = Some (OtherError ''invalid certificate'')"
    by (simp add: initialization_error_def credential_source_def bad_blob_world_def)
  have f: "files bad_blob_world NUMEROS_FILE = Parsed (JArr [numero_001, numero_002])"
    by (simp add: bad_blob_world_def with_file_def numeros_world_def file_names)
  have cs: "credential_source bad_blob_world = EnvBlob ''not a credential''"
    by (simp add: credential_source_def bad_blob_world_def)
  from credentials_environment_first[of bad_blob_world] k i f cs
  show ?thesis by simp
qed



subsection \<open>The clock\<close>

lemma load_json_now [simp]: "load_json (w\<lparr>now := t\<rparr>) = load_json w"
  by (rule ext)+ (simp add: load_json_def)

lemma doc_set_now [simp]: "doc_set (w\<lparr>now := t\<rparr>) = doc_set w"
  by (rule ext)+ (simp add: doc_set_def)

lemma commit_now [simp]: "commit (w\<lparr>now := t\<rparr>) = commit w"
  by (rule ext)+ (simp add: commit_def)

lemma add_now [simp]: "add (w\<lparr>now := t\<rparr>) = add w"
  by (rule ext)+ (simp add: add_def)

lemma document_now [simp]: "document (w\<lparr>now := t\<rparr>) = document w"
  by (rule ext)+ (simp add: document_def)

lemma stage_numero_now [simp]: "stage_numero (w\<lparr>now := t\<rparr>) = stage_numero w"
  by (rule ext)+ (simp add: stage_numero_def split: sum.splits prod.splits option.splits)

lemma stage_venta_now [simp]: "stage_venta (w\<lparr>now := t\<rparr>) = stage_venta w"
  by (rule ext)+ (simp add: stage_venta_def split: sum.splits prod.splits option.splits)

lemma stage_segment_now:
  "stg (w\<lparr>now := t\<rparr>) = stg w \<Longrightarrow>
   stage_segment stg (w\<lparr>now := t\<rparr>) items batch s = stage_segment stg w items batch s"
  by (induction items arbitrary: batch s) (simp_all split: prod.splits sum.splits)

lemma add_each_now [simp]: "add_each c (w\<lparr>now := t\<rparr>) xs s = add_each c w xs s"
  by (induction xs arbitrary: s) (simp_all split: prod.splits option.splits)

lemma batch_loop_now:
  "stg (w\<lparr>now := t\<rparr>) = stg w \<Longrightarrow>
   batch_loop stg c (w\<lparr>now := t\<rparr>) data n i s = batch_loop stg c w data n i s"
proof (induction stg c w data n i s rule: batch_loop.induct)
  case (1 stg c w data n i s)
  note stg = "1.prems"
  show ?case
  proof (cases "i < n")
    case False
    then show ?thesis
      by (simp add: batch_loop.simps[of stg c w data n i s]
            batch_loop.simps[of stg c "w\<lparr>now := t\<rparr>" data n i s])
  next
    case True
    show ?thesis
    proof (cases "py_slice data i (i + batch_size)")
      case (Inl e)
      with True show ?thesis
        by (simp add: batch_loop.simps[of stg c w data n i s]
              batch_loop.simps[of stg c "w\<lparr>now := t\<rparr>" data n i s])
    next
      case sl: (Inr segment)
      show ?thesis
      proof (cases "py_iter segment")
        case (Inl e)
        with True sl show ?thesis
          by (simp add: batch_loop.simps[of stg c w data n i s]
                batch_loop.simps[of stg c "w\<lparr>now := t\<rparr>" data n i s])
      next
        case it: (Inr items)
        obtain rb s1 where seg: "stage_segment stg w items [] s = (rb, s1)"
          by (cases "stage_segment stg w items [] s")
        then have seg': "stage_segment stg (w\<lparr>now := t\<rparr>) items [] s = (rb, s1)"
          using stage_segment_now[OF stg] by simp
        show ?thesis
        proof (cases rb)
          case (Inl e)
          with True sl it seg seg' show ?thesis
            by (simp add: batch_loop.simps[of stg c w data n i s]
                  batch_loop.simps[of stg c "w\<lparr>now := t\<rparr>" data n i s])
        next
          case (Inr batch)
          obtain rc s2 where cm: "commit w batch s1 = (rc, s2)" by (cases "commit w batch s1")
          show ?thesis
          proof (cases rc)
            case None
            from "1.IH"(1)[OF True sl it seg[unfolded Inr, symmetric] _ cm[unfolded None, symmetric] _ stg]
            show ?thesis using True sl it seg seg' Inr cm None
              by (simp add: batch_loop.simps[of stg c w data n i s]
                    batch_loop.simps[of stg c "w\<lparr>now := t\<rparr>" data n i s])
          next
            case (Some e)
            from "1.IH"(2)[OF True sl it seg[unfolded Inr, symmetric] _ cm[unfolded Some, symmetric] _ stg]
            show ?thesis using True sl it seg seg' Inr cm Some
              by (simp add: batch_loop.simps[of stg c w data n i s]
                    batch_loop.simps[of stg c "w\<lparr>now := t\<rparr>" data n i s])
          qed
        qed
      qed
    qed
  qed
qed

lemma migrate_batched_now:
  "stg (w\<lparr>now := t\<rparr>) = stg w \<Longrightarrow>
   migrate_batched stg f c (w\<lparr>now := t\<rparr>) = migrate_batched stg f c w"
  by (rule ext) (simp add: migrate_batched_def batch_loop_now split: prod.splits sum.splits option.splits)

lemma fixture_steps_now [simp]: "fixture_steps (w\<lparr>now := t\<rparr>) = fixture_steps w"
proof -
  have "migrate_configuracion (w\<lparr>now := t\<rparr>) = migrate_configuracion w"
    by (rule ext) (simp add: migrate_configuracion_def split: prod.splits sum.splits option.splits)
  moreover have "migrate_premios (w\<lparr>now := t\<rparr>) = migrate_premios w"
    by (rule ext) (simp add: migrate_premios_def split: prod.splits sum.splits option.splits)
  moreover have "migrate_horarios_zulia (w\<lparr>now := t\<rparr>) = migrate_horarios_zulia w"
    by (rule ext) (simp add: migrate_horarios_zulia_def split: prod.splits sum.splits option.splits)
  moreover have "migrate_unbatched f c (w\<lparr>now := t\<rparr>) = migrate_unbatched f c w" for f c
    by (rule ext) (simp add: migrate_unbatched_def Let_def split: prod.splits sum.splits option.splits)
  moreover have "migrate_numeros (w\<lparr>now := t\<rparr>) = migrate_numeros w"
    by (simp add: migrate_numeros_def migrate_batched_now)
  moreover have "migrate_ventas (w\<lparr>now := t\<rparr>) = migrate_ventas w"
    by (simp add: migrate_ventas_def migrate_batched_now)
  ultimately show ?thesis
    by (simp add: fixture_steps_def migrate_ganadores_def migrate_resultados_zulia_def
          migrate_comprobantes_def)
qed

lemma main_now: "main (w\<lparr>now := t\<rparr>) = main w"
proof -
  have c: "credential_source (w\<lparr>now := t\<rparr>) = credential_source w"
    by (simp add: credential_source_def)
  have i: "initialization_error (w\<lparr>now := t\<rparr>) = initialization_error w"
    by (simp add: initialization_error_def c split: option.splits)
  have s: "initial_state (w\<lparr>now := t\<rparr>) = initial_state w"
    by (simp add: initial_state_def)
  have m: "migrate_data (w\<lparr>now := t\<rparr>) = migrate_data w"
    by (simp add: migrate_data_def)
  show ?thesis
    unfolding main_def c i s m ..
qed

text \<open>
  Claim C10. Every write the migrator asks of the destination, in any run (also one
  whose request fails, and one that an exception ends), has as its content a parsed
  source value unchanged: the whole content of the configuration or prizes fixture, one
  element of a list fixture, or for the schedule the whole content under the single
  field "horarios"; nothing is added to it. The run, and so every written content, is
  the same whatever the clock reads: \<^verbatim>\<open>get_venezuela_time\<close> and
  \<^verbatim>\<open>format_timestamp\<close> are applied to nothing that is written.
\<close>

theorem writes_are_verbatim:
  "set (concat (map written (trace (snd (main w))))) \<subseteq> set (verbatim_writes w) \<and>
   main (w\<lparr>now := clock\<rparr>) = main w \<and>
   verbatim_writes (w\<lparr>now := clock\<rparr>) = verbatim_writes w"
proof -
  from main_trace[of w] obtain evs where
    evs: "trace (snd (main w)) = Credential (credential_source w) # evs"
      "list_all (writes_within (set (verbatim_writes w))) evs" by blast
  have "set (concat (map written (trace (snd (main w))))) \<subseteq> set (verbatim_writes w)"
    using evs(1) written_within[OF evs(2)] by simp
  moreover have "verbatim_writes (w\<lparr>now := clock\<rparr>) = verbatim_writes w"
    by (simp add: verbatim_writes_def fixture_def)
  ultimately show ?thesis using main_now by simp
qed



lemmas step_simps = migrate_configuracion_def migrate_premios_def migrate_horarios_zulia_def
  migrate_ganadores_def migrate_resultados_zulia_def migrate_comprobantes_def migrate_unbatched_def
  doc_set_def add_def fixture_steps_def migrate_data_def main_def credential_source_def
  initialization_error_def

lemma three_fixtures_written:
  "concat (map written (trace (snd (main three_fixtures_world)))) =
     [(''configuracion'', configuracion_example),
      (''numeros'', numero_001), (''numeros'', numero_002),
      (''horarios_zulia'', JObj [(''horarios'', horarios_example)])]"
  by (simp add: three_fixtures_world_def world_simps file_names run_simps step_simps
        numero_001_def numero_002_def horarios_example_def configuracion_example_def)

lemma three_fixtures_verbatim:
  "verbatim_writes three_fixtures_world =
     [(''configuracion'', configuracion_example),
      (''numeros'', numero_001), (''numeros'', numero_002),
      (''horarios_zulia'', JObj [(''horarios'', horarios_example)])]"
  by (simp add: verbatim_writes_def whole_document_def fixture_def elements_def
        three_fixtures_world_def world_simps file_names
        horarios_example_def configuracion_example_def)

theorem writes_are_verbatim_witness:
  "set (concat (map written (trace (snd (main three_fixtures_world)))))
     \<subseteq> set (verbatim_writes three_fixtures_world) \<and>
   concat (map written (trace (snd (main three_fixtures_world)))) =
     [(''configuracion'', configuracion_example),
      (''numeros'', numero_001), (''numeros'', numero_002),
      (''horarios_zulia'', JObj [(''horarios'', horarios_example)])] \<and>
   main (three_fixtures_world\<lparr>now := (\<lambda>offset. \<lparr>year = 1999, month = 12, day = 31, hour = 23,
      minute = 59, second = 59\<rparr>)\<rparr>) = main three_fixtures_world"
  using writes_are_verbatim[of three_fixtures_world
      "\<lambda>offset. \<lparr>year = 1999, month = 12, day = 31, hour = 23, minute = 59, second = 59\<rparr>"]
    three_fixtures_written
  by simp

subsection \<open>Fixtures that are skipped\<close>

lemma load_json_cases:
  "files w f = Absent \<Longrightarrow>
     load_json w f s = (JNull, emit (Print (NotFoundWarning f)) (emit (Load f) s))"
  "files w f = Malformed msg \<Longrightarrow>
     load_json w f s = (JNull, emit (Print (JsonDecodeError f msg)) (emit (Load f) s))"
  "files w f = Unloadable msg \<Longrightarrow>
     load_json w f s = (JNull, emit (Print (LoadError f msg)) (emit (Load f) s))"
  by (simp_all add: load_json_def)

lemma falsy_skips:
  assumes "(f, st) \<in> set (fixture_steps w)" and "load_json w f s = (v, s1)" and "\<not> truthy v"
  shows "st s = (None, s1)"
proof -
  from assms(1) consider
      "f = CONFIGURACION_FILE" "st = migrate_configuracion w"
    | "f = NUMEROS_FILE" "st = migrate_numeros w"
    | "f = HORARIOS_ZULIA_FILE" "st = migrate_horarios_zulia w"
    | "f = GANADORES_FILE" "st = migrate_ganadores w"
    | "f = PREMIOS_FILE" "st = migrate_premios w"
    | "f = VENTAS_FILE" "st = migrate_ventas w"
    | "f = RESULTADOS_ZULIA_FILE" "st = migrate_resultados_zulia w"
    | "f = COMPROBANTES_FILE" "st = migrate_comprobantes w"
    by (auto simp: fixture_steps_def)
  then show ?thesis
  proof cases
    case 1 with assms(2,3) show ?thesis by (simp add: migrate_configuracion_def)
  next
    case 2 with assms(2,3) show ?thesis by (simp add: migrate_numeros_def migrate_batched_def)
  next
    case 3 with assms(2,3) show ?thesis by (simp add: migrate_horarios_zulia_def)
  next
    case 4 with assms(2,3) show ?thesis by (simp add: migrate_ganadores_def migrate_unbatched_def)
  next
    case 5 with assms(2,3) show ?thesis by (simp add: migrate_premios_def)
  next
    case 6 with assms(2,3) show ?thesis by (simp add: migrate_ventas_def migrate_batched_def)
  next
    case 7 with assms(2,3) show ?thesis
      by (simp add: migrate_resultados_zulia_def migrate_unbatched_def)
  next
    case 8 with assms(2,3) show ?thesis
      by (simp add: migrate_comprobantes_def migrate_unbatched_def)
  qed
qed

text \<open>
  Claim C6, as the code has it. For each of the eight fixtures: when the file is absent
  the step prints the not-found warning for it and nothing else; when the file is not
  JSON (a file of zero bytes is not) it prints the decode error; when the parsed content
  is empty (an empty list or object, or any other value that Python takes for false)
  the step prints nothing at all. In each case the step sends no request, raises
  nothing, and the steps after it run from the state it leaves.
\<close>

theorem absent_or_empty_fixture_skipped:
  assumes "(filepath, step) \<in> set (fixture_steps w)"
  shows "(files w filepath = Absent \<longrightarrow>
            step s = (None, emit (Print (NotFoundWarning filepath)) (emit (Load filepath) s))) \<and>
         (\<forall>msg. files w filepath = Malformed msg \<longrightarrow>
            step s = (None, emit (Print (JsonDecodeError filepath msg)) (emit (Load filepath) s))) \<and>
         (\<forall>v. files w filepath = Parsed v \<and> \<not> truthy v \<longrightarrow>
            step s = (None, emit (Load filepath) s)) \<and>
         (files w filepath = Absent \<or> (\<exists>msg. files w filepath = Malformed msg) \<or>
          (\<exists>v. files w filepath = Parsed v \<and> \<not> truthy v) \<longrightarrow>
            requests (snd (step s)) = requests s \<and> store (snd (step s)) = store s \<and>
            (\<forall>rest. run_steps (step # rest) s = run_steps rest (snd (step s))))"
proof -
  have a: "files w filepath = Absent \<longrightarrow>
            step s = (None, emit (Print (NotFoundWarning filepath)) (emit (Load filepath) s))"
    using falsy_skips[OF assms load_json_cases(1)] by simp
  have m: "\<forall>msg. files w filepath = Malformed msg \<longrightarrow>
            step s = (None, emit (Print (JsonDecodeError filepath msg)) (emit (Load filepath) s))"
    using falsy_skips[OF assms load_json_cases(2)] by simp
  have e: "\<forall>v. files w filepath = Parsed v \<and> \<not> truthy v \<longrightarrow>
            step s = (None, emit (Load filepath) s)"
    using falsy_skips[OF assms load_json_Parsed] by simp
  have r: "files w filepath = Absent \<or> (\<exists>msg. files w filepath = Malformed msg) \<or>
          (\<exists>v. files w filepath = Parsed v \<and> \<not> truthy v) \<longrightarrow>
            requests (snd (step s)) = requests s \<and> store (snd (step s)) = store s \<and>
            (\<forall>rest. run_steps (step # rest) s = run_steps rest (snd (step s)))"
    using a m e by (auto simp: emit_fields)
  from a m e r show ?thesis by blast
qed

theorem absent_or_empty_fixture_skipped_witness:
  "(NUMEROS_FILE, migrate_numeros quiet_world) \<in> set (fixture_steps quiet_world) \<and>
   files quiet_world NUMEROS_FILE = Absent \<and>
   migrate_numeros quiet_world (initial_state quiet_world) =
     (None, emit (Print (NotFoundWarning NUMEROS_FILE))
              (emit (Load NUMEROS_FILE) (initial_state quiet_world))) \<and>
   run_steps [migrate_numeros quiet_world, migrate_horarios_zulia quiet_world]
       (initial_state quiet_world) =
     run_steps [migrate_horarios_zulia quiet_world]
       (snd (migrate_numeros quiet_world (initial_state quiet_world)))"
proof -
  have i: "(NUMEROS_FILE, migrate_numeros quiet_world) \<in> set (fixture_steps quiet_world)"
    by (simp add: fixture_steps_def)
  have f: "files quiet_world NUMEROS_FILE = Absent"
    by (simp add: quiet_world_def)
  from absent_or_empty_fixture_skipped[OF i, of "initial_state quiet_world"] i f
  show ?thesis by simp
qed

text \<open>
  Claim C6 as the specification words it (a warning for every absent or empty fixture)
  fails for an empty fixture: the numbers fixture \<open>[]\<close> is skipped without any
  text, warning or other.
\<close>

theorem empty_fixture_prints_no_warning:
  "files empty_numeros_world NUMEROS_FILE = Parsed (JArr []) \<and>
   new_events (initial_state empty_numeros_world)
     (snd (migrate_numeros empty_numeros_world (initial_state empty_numeros_world)))
     = [Load NUMEROS_FILE] \<and>
   concat (map printed (new_events (initial_state empty_numeros_world)
     (snd (migrate_numeros empty_numeros_world (initial_state empty_numeros_world))))) = []"
  by (simp add: empty_numeros_world_def world_simps file_names run_simps new_events_def)

subsection \<open>A record that cannot be staged ends the run\<close>

text \<open>
  Claim C3 does not hold of the code. The numbers fixture below is a well-formed JSON
  list whose record has no field "numero": line 94 raises \<^verbatim>\<open>KeyError\<close> outside
  every \<^verbatim>\<open>try\<close>, the exception leaves \<^verbatim>\<open>migrate_data\<close>, and the six fixtures
  after the numbers are never loaded, the schedule that is there among them.
\<close>

theorem keyless_number_halts_migration:
  "files keyless_world NUMEROS_FILE = Parsed (JArr [JObj [(''id'', JInt 1)]]) \<and>
   files keyless_world HORARIOS_ZULIA_FILE = Parsed horarios_example \<and>
   fst (main keyless_world) = Crashed (KeyError ''numero'') \<and>
   concat (map loaded (trace (snd (main keyless_world)))) = [CONFIGURACION_FILE, NUMEROS_FILE] \<and>
   concat (map written (trace (snd (main keyless_world)))) =
     [(''configuracion'', configuracion_example)]"
  by (simp add: keyless_world_def three_fixtures_world_def world_simps file_names run_simps
        step_simps horarios_example_def configuracion_example_def)

end
